theory Spec2Isabelle
  imports Complex_Main "HOL-Library.AList" "HOL-Library.Sublist"
begin

section \<open>Path strings (posixpath)\<close>

text \<open>
  The server runs on a POSIX platform: \<^verbatim>\<open>os.path\<close> is \<^verbatim>\<open>posixpath\<close> and the separator
  is \<^verbatim>\<open>/\<close>. A Python \<^verbatim>\<open>str\<close> is modelled by the bytes of its UTF-8 encoding, a HOL
  \<^typ>\<open>string\<close>; the separator and the dot are ASCII, so stripping, splitting and joining
  act on the bytes as they act on the code points.
\<close>

definition sep :: char where
  "sep = CHR ''/''"

text \<open>\<^verbatim>\<open>filepath.lstrip("/")\<close>\<close>

definition lstrip_sep :: "string \<Rightarrow> string" where
  "lstrip_sep s = dropWhile (\<lambda>c. c = sep) s"

text \<open>\<^verbatim>\<open>s.rstrip("/")\<close>\<close>

definition rstrip_sep :: "string \<Rightarrow> string" where
  "rstrip_sep s = rev (dropWhile (\<lambda>c. c = sep) (rev s))"

text \<open>\<^verbatim>\<open>path.split("/")\<close>: the pieces between separators, empty pieces included.\<close>

fun split_sep :: "string \<Rightarrow> string list" where
  "split_sep [] = [[]]"
| "split_sep (c # cs) =
     (if c = sep then [] # split_sep cs
      else (case split_sep cs of [] \<Rightarrow> [[c]] | w # ws \<Rightarrow> (c # w) # ws))"

text \<open>\<^verbatim>\<open>"/".join(comps)\<close>\<close>

fun sep_join :: "string list \<Rightarrow> string" where
  "sep_join [] = []"
| "sep_join [c] = c"
| "sep_join (c # d # cs) = c @ sep # sep_join (d # cs)"

definition isabs :: "string \<Rightarrow> bool" where
  "isabs s = (case s of [] \<Rightarrow> False | c # _ \<Rightarrow> c = sep)"

text \<open>\<^verbatim>\<open>os.path.join(a, b)\<close> with two arguments.\<close>

definition join :: "string \<Rightarrow> string \<Rightarrow> string" where
  "join a b =
     (if isabs b then b
      else if a = [] \<or> last a = sep then a @ b
      else a @ sep # b)"

text \<open>
  \<^verbatim>\<open>os.path.normpath\<close>. \<open>initial_slashes\<close> is 0 for a relative path, 2 for a path that
  starts with exactly two separators and 1 for any other absolute path. \<open>norm_step\<close> is the
  body of the loop over the components, \<open>new_comps\<close> its accumulator.
\<close>

definition initial_slashes :: "string \<Rightarrow> nat" where
  "initial_slashes path =
     (if \<not> isabs path then 0
      else if take 2 path = [sep, sep] \<and> take 3 path \<noteq> [sep, sep, sep] then 2
      else 1)"

definition norm_step :: "nat \<Rightarrow> string list \<Rightarrow> string \<Rightarrow> string list" where
  "norm_step slashes new_comps cmp =
     (if cmp = [] \<or> cmp = ''.'' then new_comps
      else if cmp \<noteq> ''..'' \<or> (slashes = 0 \<and> new_comps = [])
              \<or> (new_comps \<noteq> [] \<and> last new_comps = ''..'')
      then new_comps @ [cmp]
      else if new_comps \<noteq> [] then butlast new_comps
      else new_comps)"

definition normpath :: "string \<Rightarrow> string" where
  "normpath path =
     (if path = [] then ''.''
      else
        (let slashes = initial_slashes path;
             comps = foldl (norm_step slashes) [] (split_sep path);
             p = replicate slashes sep @ sep_join comps
         in if p = [] then ''.'' else p))"

text \<open>
  The expression every handler computes before it touches the file system:
  \<^verbatim>\<open>os.path.normpath(os.path.join(TEMP_DIR, filepath.lstrip("/")))\<close>.
\<close>

definition safe_path :: "string \<Rightarrow> string \<Rightarrow> string" where
  "safe_path temp_dir filepath = normpath (join temp_dir (lstrip_sep filepath))"

text \<open>
  Containment as the specification words it: a path is inside the root when it is the root
  or continues it after a separator.
\<close>

definition inside :: "string \<Rightarrow> string \<Rightarrow> bool" where
  "inside temp_dir p = (p = temp_dir \<or> take (length temp_dir + 1) p = temp_dir @ [sep])"


text \<open>\<^verbatim>\<open>os.path.split\<close> and \<^verbatim>\<open>os.path.dirname\<close>.\<close>

definition split :: "string \<Rightarrow> string \<times> string" where
  "split p =
     (let tail = rev (takeWhile (\<lambda>c. c \<noteq> sep) (rev p));
          head = rev (dropWhile (\<lambda>c. c \<noteq> sep) (rev p))
      in (if head \<noteq> [] \<and> head \<noteq> replicate (length head) sep then rstrip_sep head else head,
          tail))"

definition dirname :: "string \<Rightarrow> string" where
  "dirname p = fst (split p)"

text \<open>
  \<^verbatim>\<open>os.path.abspath\<close> and \<^verbatim>\<open>os.path.relpath(path, start)\<close>. The working directory is
  \<^verbatim>\<open>/\<close> in this model; \<^verbatim>\<open>TEMP_DIR\<close> is absolute (\<^verbatim>\<open>tempfile.mkdtemp\<close> returns an absolute
  path), so no handler ever passes a relative path. \<^verbatim>\<open>relpath\<close> raises \<^verbatim>\<open>ValueError\<close> on an
  empty path, which is \<open>None\<close> here; \<open>relpath_of\<close> is the computation after that check.
\<close>

definition abspath :: "string \<Rightarrow> string" where
  "abspath p = normpath (if isabs p then p else join ''/'' p)"

fun commonprefix :: "string list \<Rightarrow> string list \<Rightarrow> nat" where
  "commonprefix (x # xs) (y # ys) = (if x = y then Suc (commonprefix xs ys) else 0)"
| "commonprefix _ _ = 0"

definition relpath_of :: "string \<Rightarrow> string \<Rightarrow> string" where
  "relpath_of path start =
     (let start_list = filter (\<lambda>x. x \<noteq> []) (split_sep (abspath start));
          path_list = filter (\<lambda>x. x \<noteq> []) (split_sep (abspath path));
          i = commonprefix start_list path_list;
          rel_list = replicate (length start_list - i) ''..'' @ drop i path_list
      in if rel_list = [] then ''.'' else sep_join rel_list)"

definition relpath :: "string \<Rightarrow> string \<Rightarrow> string option" where
  "relpath path start = (if path = [] then None else Some (relpath_of path start))"

section \<open>Values, parameters and exceptions\<close>

text \<open>
  What \<^verbatim>\<open>json.loads\<close> returns, and what the handler returns (a Python \<^verbatim>\<open>dict\<close> keeps its
  insertion order, so an object is an association list; a lookup takes the first entry of
  a key). Non-finite floats behave here like any non-zero float: they are true and they are
  not strings.
\<close>

datatype json =
    JNull
  | JBool bool
  | JInt int
  | JFloat real
  | JStr string
  | JArr "json list"
  | JObj "(string \<times> json) list"

text \<open>Python truth value: what \<^verbatim>\<open>not x\<close> tests.\<close>

fun truthy :: "json \<Rightarrow> bool" where
  "truthy JNull = False"
| "truthy (JBool b) = b"
| "truthy (JInt i) = (i \<noteq> 0)"
| "truthy (JFloat r) = (r \<noteq> 0)"
| "truthy (JStr s) = (s \<noteq> [])"
| "truthy (JArr xs) = (xs \<noteq> [])"
| "truthy (JObj kvs) = (kvs \<noteq> [])"

fun type_name :: "json \<Rightarrow> string" where
  "type_name JNull = ''NoneType''"
| "type_name (JBool _) = ''bool''"
| "type_name (JInt _) = ''int''"
| "type_name (JFloat _) = ''float''"
| "type_name (JStr _) = ''str''"
| "type_name (JArr _) = ''list''"
| "type_name (JObj _) = ''dict''"

datatype errno = ENOENT | EEXIST | ENOTDIR | EISDIR | EBUSY

text \<open>
  The exceptions the handler can meet. \<open>JSONDecodeError\<close> has a handler of its own;
  \<open>LoadsError\<close> is any other exception of \<^verbatim>\<open>json.loads\<close> (a body that is not UTF-8, a
  nesting too deep), with its message; \<open>AttributeError t a\<close> is a missing attribute \<open>a\<close> on
  a value of type \<open>t\<close>; \<open>OSError e f\<close> carries the error number and the file name.
\<close>

datatype exn =
    JSONDecodeError
  | LoadsError string
  | AttributeError string string
  | TypeError string
  | ValueError string
  | OSError errno string

fun errno_text :: "errno \<Rightarrow> string" where
  "errno_text ENOENT = ''[Errno 2] No such file or directory: ''"
| "errno_text EEXIST = ''[Errno 17] File exists: ''"
| "errno_text ENOTDIR = ''[Errno 20] Not a directory: ''"
| "errno_text EISDIR = ''[Errno 21] Is a directory: ''"
| "errno_text EBUSY = ''[Errno 16] Device or resource busy: ''"

text \<open>
  \<^verbatim>\<open>str(e)\<close>. The file name of an \<^verbatim>\<open>OSError\<close> is printed with \<^verbatim>\<open>repr\<close>, which is a parameter
  of the model (\<open>py_repr\<close>).
\<close>

fun str_exn :: "(string \<Rightarrow> string) \<Rightarrow> exn \<Rightarrow> string" where
  "str_exn py_repr JSONDecodeError = ''Expecting value''"
| "str_exn py_repr (LoadsError m) = m"
| "str_exn py_repr (AttributeError t a) =
     [CHR 0x27] @ t @ [CHR 0x27] @ '' object has no attribute '' @ [CHR 0x27] @ a @ [CHR 0x27]"
| "str_exn py_repr (TypeError m) = m"
| "str_exn py_repr (ValueError m) = m"
| "str_exn py_repr (OSError e f) = errno_text e @ py_repr f"

text \<open>
  The environment of the handler: the module-level \<^verbatim>\<open>TEMP_DIR\<close>, and the library functions
  taken as parameters: \<^verbatim>\<open>json.loads\<close> on the request body, the name matcher of
  \<^verbatim>\<open>fnmatch.filter\<close> (\<open>fnmatch name pattern\<close>) and \<^verbatim>\<open>repr\<close> on strings.
\<close>

record env =
  TEMP_DIR :: string
  json_loads :: "string \<Rightarrow> exn + json"
  fnmatch :: "string \<Rightarrow> string \<Rightarrow> bool"
  py_repr :: "string \<Rightarrow> string"

text \<open>
  \<^verbatim>\<open>parameters.get(key)\<close>: only a \<^verbatim>\<open>dict\<close> has the method; a missing key gives \<^verbatim>\<open>None\<close>.
  \<open>dict_value\<close> is the lookup in the entries of the \<^verbatim>\<open>dict\<close>.
\<close>

definition dict_value :: "(string \<times> json) list \<Rightarrow> string \<Rightarrow> json" where
  "dict_value kvs key = (case map_of kvs key of None \<Rightarrow> JNull | Some v \<Rightarrow> v)"

definition dict_get :: "json \<Rightarrow> string \<Rightarrow> exn + json" where
  "dict_get parameters key =
     (case parameters of
        JObj kvs \<Rightarrow> Inr (dict_value kvs key)
      | _ \<Rightarrow> Inl (AttributeError (type_name parameters) ''get''))"

definition error_payload :: "string \<Rightarrow> json" where
  "error_payload message = JObj [(''error'', JStr message)]"

section \<open>The file system\<close>

text \<open>
  A file system is the entry list of the root directory; a directory is an association list
  from names to nodes in directory order, a lookup taking the first entry of a name. A
  regular file holds its bytes. The model has no symbolic links, permissions, quotas or
  concurrent processes: a system call fails only for the structural reasons written out
  below.
\<close>

datatype node = File string | Dir "(string \<times> node) list"

type_synonym filesystem = "(string \<times> node) list"

text \<open>The node at a list of names, each a real name (not empty, \<^verbatim>\<open>.\<close> or \<^verbatim>\<open>..\<close>).\<close>

fun lookup :: "filesystem \<Rightarrow> string list \<Rightarrow> node option" where
  "lookup es [] = Some (Dir es)"
| "lookup es (c # cs) =
     (case map_of es c of
        None \<Rightarrow> None
      | Some (File s) \<Rightarrow> (if cs = [] then Some (File s) else None)
      | Some (Dir sub) \<Rightarrow> lookup sub cs)"

text \<open>
  Path resolution as the kernel does it, component by component: \<open>cur\<close> is the current
  directory, \<open>ups\<close> its ancestors (nearest first). An empty component and \<^verbatim>\<open>.\<close> stay,
  \<^verbatim>\<open>..\<close> goes up (the root is its own parent), and nothing can follow a regular file.
\<close>

fun walk :: "filesystem \<Rightarrow> filesystem list \<Rightarrow> string list \<Rightarrow> node option" where
  "walk cur ups [] = Some (Dir cur)"
| "walk cur ups (c # cs) =
     (if c = [] \<or> c = ''.'' then walk cur ups cs
      else if c = ''..'' then (case ups of [] \<Rightarrow> walk cur [] cs | u # us \<Rightarrow> walk u us cs)
      else (case map_of cur c of
              None \<Rightarrow> None
            | Some (File s) \<Rightarrow> (if cs = [] then Some (File s) else None)
            | Some (Dir sub) \<Rightarrow> walk sub (cur # ups) cs))"

text \<open>
  The node a path string names, if any. Resolution starts at the root: the working
  directory of the model is \<^verbatim>\<open>/\<close>, and with an absolute \<^verbatim>\<open>TEMP_DIR\<close> the handler passes
  absolute paths only. The empty path names nothing.
\<close>

definition stat :: "filesystem \<Rightarrow> string \<Rightarrow> node option" where
  "stat fs path = (if path = [] then None else walk fs [] (split_sep path))"

definition exists :: "filesystem \<Rightarrow> string \<Rightarrow> bool" where
  "exists fs path = (stat fs path \<noteq> None)"

definition isfile :: "filesystem \<Rightarrow> string \<Rightarrow> bool" where
  "isfile fs path = (case stat fs path of Some (File _) \<Rightarrow> True | _ \<Rightarrow> False)"

definition isdir :: "filesystem \<Rightarrow> string \<Rightarrow> bool" where
  "isdir fs path = (case stat fs path of Some (Dir _) \<Rightarrow> True | _ \<Rightarrow> False)"

text \<open>
  \<^verbatim>\<open>os.path.getsize\<close>: the size in bytes. The handler calls it only after
  \<^verbatim>\<open>os.path.isfile\<close> has answered yes, where it cannot raise.
\<close>

definition getsize :: "filesystem \<Rightarrow> string \<Rightarrow> int" where
  "getsize fs path = (case stat fs path of Some (File s) \<Rightarrow> int (length s) | _ \<Rightarrow> 0)"

text \<open>\<^verbatim>\<open>os.listdir\<close>: the names in directory order.\<close>

definition listdir :: "filesystem \<Rightarrow> string \<Rightarrow> exn + string list" where
  "listdir fs path =
     (case stat fs path of
        None \<Rightarrow> Inl (OSError ENOENT path)
      | Some (File _) \<Rightarrow> Inl (OSError ENOTDIR path)
      | Some (Dir es) \<Rightarrow> Inr (map fst es))"

text \<open>
  The calls that change the file system receive \<open>safe_path\<close> or its \<^verbatim>\<open>dirname\<close>: a
  normalised absolute path, whose non-empty components are real names (lemma
  \<open>safe_path_facts\<close> below). \<open>components\<close> are those names.
\<close>

definition components :: "string \<Rightarrow> string list" where
  "components path = filter (\<lambda>c. c \<noteq> []) (split_sep path)"

text \<open>The name of the first \<open>n\<close> components of a path, for the file name of an error.\<close>

definition path_prefix :: "string \<Rightarrow> nat \<Rightarrow> string" where
  "path_prefix path n =
     takeWhile (\<lambda>c. c = sep) path @ sep_join (take n (components path))"


text \<open>A fresh chain of nested empty directories, one for each name.\<close>

fun new_dirs :: "string list \<Rightarrow> node" where
  "new_dirs [] = Dir []"
| "new_dirs (c # cs) = Dir [(c, new_dirs cs)]"

text \<open>
  \<^verbatim>\<open>os.makedirs(path, exist_ok=True)\<close> on the names of the path: existing directories are
  kept, the missing tail is created. It fails, before it creates anything, when a regular
  file is in the way: \<open>ENOTDIR\<close> for a file above the target, \<open>EEXIST\<close> for a file at
  the target. The error carries the number of names of the path that failed.
\<close>

fun mkdirs :: "string list \<Rightarrow> filesystem \<Rightarrow> (errno \<times> nat) + filesystem" where
  "mkdirs [] es = Inr es"
| "mkdirs (c # cs) es =
     (case map_of es c of
        None \<Rightarrow> Inr (AList.update c (new_dirs cs) es)
      | Some (File _) \<Rightarrow> Inl (if cs = [] then (EEXIST, 1) else (ENOTDIR, 2))
      | Some (Dir sub) \<Rightarrow>
          (case mkdirs cs sub of
             Inl (e, n) \<Rightarrow> Inl (e, Suc n)
           | Inr sub' \<Rightarrow> Inr (AList.update c (Dir sub') es)))"

definition makedirs :: "filesystem \<Rightarrow> string \<Rightarrow> (exn + unit) \<times> filesystem" where
  "makedirs fs path =
     (if path = [] then (Inl (OSError ENOENT path), fs)
      else
        (case mkdirs (components path) fs of
           Inl (e, n) \<Rightarrow> (Inl (OSError e (path_prefix path n)), fs)
         | Inr fs' \<Rightarrow> (Inr (), fs')))"

text \<open>
  \<^verbatim>\<open>open(path, "w")\<close> followed by \<^verbatim>\<open>f.write(s)\<close> and the close of the \<^verbatim>\<open>with\<close> block: the
  file at the names is created or truncated and holds \<open>s\<close>. The parent must be an existing
  directory and the target must not be a directory. On POSIX a text file is written as it
  is (no newline translation).
\<close>

fun write_at :: "string list \<Rightarrow> string \<Rightarrow> filesystem \<Rightarrow> errno + filesystem" where
  "write_at [] s es = Inl EISDIR"
| "write_at (c # cs) s es =
     (case map_of es c of
        None \<Rightarrow> (if cs = [] then Inr (AList.update c (File s) es) else Inl ENOENT)
      | Some (File _) \<Rightarrow> (if cs = [] then Inr (AList.update c (File s) es) else Inl ENOTDIR)
      | Some (Dir sub) \<Rightarrow>
          (case write_at cs s sub of
             Inl e \<Rightarrow> Inl e
           | Inr sub' \<Rightarrow> Inr (AList.update c (Dir sub') es)))"

text \<open>\<^verbatim>\<open>os.remove\<close>: unlinks a regular file.\<close>

fun unlink_at :: "string list \<Rightarrow> filesystem \<Rightarrow> errno + filesystem" where
  "unlink_at [] es = Inl EISDIR"
| "unlink_at (c # cs) es =
     (case map_of es c of
        None \<Rightarrow> Inl ENOENT
      | Some (File _) \<Rightarrow> (if cs = [] then Inr (AList.delete c es) else Inl ENOTDIR)
      | Some (Dir sub) \<Rightarrow>
          (case unlink_at cs sub of
             Inl e \<Rightarrow> Inl e
           | Inr sub' \<Rightarrow> Inr (AList.update c (Dir sub') es)))"

definition remove :: "filesystem \<Rightarrow> string \<Rightarrow> (exn + unit) \<times> filesystem" where
  "remove fs path =
     (case unlink_at (components path) fs of
        Inl e \<Rightarrow> (Inl (OSError (if path = [] then ENOENT else e) path), fs)
      | Inr fs' \<Rightarrow> (Inr (), fs'))"

text \<open>
  \<^verbatim>\<open>shutil.rmtree\<close>: removes a directory with everything below it. The root directory
  \<^verbatim>\<open>/\<close> itself cannot be removed: its content goes, then \<^verbatim>\<open>rmdir\<close> fails with \<open>EBUSY\<close>.
\<close>

fun rmtree_at :: "string list \<Rightarrow> filesystem \<Rightarrow> errno + filesystem" where
  "rmtree_at [] es = Inl EBUSY"
| "rmtree_at (c # cs) es =
     (case map_of es c of
        None \<Rightarrow> Inl ENOENT
      | Some (File _) \<Rightarrow> Inl ENOTDIR
      | Some (Dir sub) \<Rightarrow>
          (if cs = [] then Inr (AList.delete c es)
           else (case rmtree_at cs sub of
                   Inl e \<Rightarrow> Inl e
                 | Inr sub' \<Rightarrow> Inr (AList.update c (Dir sub') es))))"

definition rmtree :: "filesystem \<Rightarrow> string \<Rightarrow> (exn + unit) \<times> filesystem" where
  "rmtree fs path =
     (if path = [] then (Inl (OSError ENOENT path), fs)
      else if components path = [] then (Inl (OSError EBUSY path), [])
      else
        (case rmtree_at (components path) fs of
           Inl e \<Rightarrow> (Inl (OSError e path), fs)
         | Inr fs' \<Rightarrow> (Inr (), fs')))"

text \<open>
  Reading a file opened with \<^verbatim>\<open>open(path, "r")\<close>: text mode with universal newlines, so
  \<^verbatim>\<open>\r\n\<close> and a lone \<^verbatim>\<open>\r\<close> both arrive as \<^verbatim>\<open>\n\<close>.
\<close>

definition CR :: char where
  "CR = CHR 0x0D"

definition LF :: char where
  "LF = CHR 0x0A"

fun universal_newlines :: "string \<Rightarrow> string" where
  "universal_newlines [] = []"
| "universal_newlines [c] = (if c = CR then [LF] else [c])"
| "universal_newlines (c # d # cs) =
     (if c = CR \<and> d = LF then LF # universal_newlines cs
      else if c = CR then LF # universal_newlines (d # cs)
      else c # universal_newlines (d # cs))"

section \<open>glob\<close>

text \<open>
  \<^verbatim>\<open>glob.glob(pathname)\<close> with its defaults (not recursive, hidden names left out).
  \<open>has_magic\<close> looks for one of \<^verbatim>\<open>* ? [\<close>; \<open>glob0\<close> takes a literal last component, \<open>glob1\<close>
  filters the names of a directory (none when it cannot be read) with the matcher
  \<open>fnm name pattern\<close>; \<open>iglob\<close> splits off the last component and, when the directory part
  has wildcards too, expands it first (directories only).
\<close>

definition has_magic :: "string \<Rightarrow> bool" where
  "has_magic s = (\<exists>c \<in> set s. c = CHR ''*'' \<or> c = CHR ''?'' \<or> c = CHR ''['')"

definition ishidden :: "string \<Rightarrow> bool" where
  "ishidden name = (case name of [] \<Rightarrow> False | c # _ \<Rightarrow> c = CHR ''.'')"

text \<open>\<open>_join\<close> of the glob module.\<close>

definition glob_join :: "string \<Rightarrow> string \<Rightarrow> string" where
  "glob_join dir base = (if dir = [] \<or> base = [] then (if dir = [] then base else dir) else join dir base)"

text \<open>\<^verbatim>\<open>os.scandir\<close> as glob uses it: entry names, only directories when \<open>dironly\<close>.\<close>

definition scandir_names :: "filesystem \<Rightarrow> string \<Rightarrow> bool \<Rightarrow> string list" where
  "scandir_names fs dir dironly =
     (case stat fs (if dir = [] then ''.'' else dir) of
        Some (Dir es) \<Rightarrow>
          map fst (filter (\<lambda>(name, n). \<not> dironly \<or> (case n of Dir _ \<Rightarrow> True | File _ \<Rightarrow> False)) es)
      | _ \<Rightarrow> [])"

definition glob1 ::
  "(string \<Rightarrow> string \<Rightarrow> bool) \<Rightarrow> filesystem \<Rightarrow> string \<Rightarrow> string \<Rightarrow> bool \<Rightarrow> string list" where
  "glob1 fnm fs dir pattern dironly =
     (let names = scandir_names fs dir dironly;
          names = (if \<not> ishidden pattern then filter (\<lambda>x. \<not> ishidden x) names else names)
      in filter (\<lambda>name. fnm name pattern) names)"

definition glob0 :: "filesystem \<Rightarrow> string \<Rightarrow> string \<Rightarrow> string list" where
  "glob0 fs dir base =
     (if base \<noteq> [] then (if exists fs (glob_join dir base) then [base] else [])
      else (if isdir fs dir then [base] else []))"

function iglob ::
  "(string \<Rightarrow> string \<Rightarrow> bool) \<Rightarrow> filesystem \<Rightarrow> string \<Rightarrow> bool \<Rightarrow> string list" where
  "iglob fnm fs pathname dironly =
     (if \<not> has_magic pathname then
        (if snd (split pathname) \<noteq> [] then (if exists fs pathname then [pathname] else [])
         else (if isdir fs (dirname pathname) then [pathname] else []))
      else if dirname pathname = [] then glob1 fnm fs [] (snd (split pathname)) dironly
      else if dirname pathname \<noteq> pathname \<and> has_magic (dirname pathname) then
        concat (map (\<lambda>d. map (join d)
                      (if has_magic (snd (split pathname))
                       then glob1 fnm fs d (snd (split pathname)) dironly
                       else glob0 fs d (snd (split pathname))))
                 (iglob fnm fs (dirname pathname) True))
      else
        map (join (dirname pathname))
          (if has_magic (snd (split pathname))
           then glob1 fnm fs (dirname pathname) (snd (split pathname)) dironly
           else glob0 fs (dirname pathname) (snd (split pathname))))"
  by pat_completeness auto
termination
proof (relation "measure (\<lambda>(fnm, fs, pathname, dironly). length pathname)")
  show "wf (measure (\<lambda>(fnm, fs, pathname, dironly). length pathname))"
    by simp
next
  fix fnm :: "string \<Rightarrow> string \<Rightarrow> bool" and fs :: filesystem and pathname :: string
    and dironly :: bool
  assume ne: "dirname pathname \<noteq> pathname \<and> has_magic (dirname pathname)"
  define h where "h = rev (dropWhile (\<lambda>c. c \<noteq> sep) (rev pathname))"
  have "h @ rev (takeWhile (\<lambda>c. c \<noteq> sep) (rev pathname)) = pathname"
    unfolding h_def rev_append [symmetric] by simp
  then have p: "prefix h pathname"
    by (metis prefixI)
  have "rstrip_sep h @ rev (takeWhile (\<lambda>c. c = sep) (rev h)) = h"
    unfolding rstrip_sep_def rev_append [symmetric] by simp
  then have "prefix (rstrip_sep h) h"
    by (metis prefixI)
  with p have "prefix (rstrip_sep h) pathname"
    by (rule prefix_order.trans [rotated])
  with p have "prefix (dirname pathname) pathname"
    by (simp add: dirname_def split_def Let_def h_def)
  with ne have "strict_prefix (dirname pathname) pathname"
    by (simp add: strict_prefix_def)
  then have "length (dirname pathname) < length pathname"
    by (rule prefix_length_less)
  then show "((fnm, fs, dirname pathname, True), (fnm, fs, pathname, dironly))
      \<in> measure (\<lambda>(fnm, fs, pathname, dironly). length pathname)"
    by simp
qed

definition glob :: "(string \<Rightarrow> string \<Rightarrow> bool) \<Rightarrow> filesystem \<Rightarrow> string \<Rightarrow> string list" where
  "glob fnm fs pathname = iglob fnm fs pathname False"


section \<open>The request handler\<close>

text \<open>
  \<^verbatim>\<open>with open(safe_path, "w") as f: f.write(content)\<close>. Opening creates or truncates the
  file; \<^verbatim>\<open>f.write\<close> takes a \<^verbatim>\<open>str\<close> only, so any other content leaves the file empty and
  raises \<^verbatim>\<open>TypeError\<close>.
\<close>

definition open_write :: "filesystem \<Rightarrow> string \<Rightarrow> json \<Rightarrow> (exn + unit) \<times> filesystem" where
  "open_write fs path content =
     (if path = [] then (Inl (OSError ENOENT path), fs)
      else
        (case write_at (components path) (case content of JStr s \<Rightarrow> s | _ \<Rightarrow> []) fs of
           Inl e \<Rightarrow> (Inl (OSError e path), fs)
         | Inr fs' \<Rightarrow>
             (case content of
                JStr s \<Rightarrow> (Inr (), fs')
              | _ \<Rightarrow> (Inl (TypeError (''write() argument must be str, not '' @ type_name content)),
                      fs'))))"

text \<open>
  \<^verbatim>\<open>with open(safe_path, "r") as f: content = f.read()\<close>. The bytes of every file are
  taken to be text in the encoding of the platform, so decoding does not fail.
\<close>

definition open_read :: "filesystem \<Rightarrow> string \<Rightarrow> exn + string" where
  "open_read fs path =
     (case stat fs path of
        None \<Rightarrow> Inl (OSError ENOENT path)
      | Some (Dir _) \<Rightarrow> Inl (OSError EISDIR path)
      | Some (File s) \<Rightarrow> Inr (universal_newlines s))"

text \<open>
  Each branch of \<^verbatim>\<open>handle_mcp_request\<close> is a function from the parameters and the file
  system to the outcome of the \<^verbatim>\<open>try\<close> block (\<open>Inl\<close> an exception raised, \<open>Inr\<close> the value
  returned) and the file system it leaves. A parameter that passed \<^verbatim>\<open>not x\<close> and is not a
  \<^verbatim>\<open>str\<close> fails at \<^verbatim>\<open>.lstrip("/")\<close>.
\<close>

definition write_file :: "env \<Rightarrow> json \<Rightarrow> filesystem \<Rightarrow> (exn + json) \<times> filesystem" where
  "write_file env parameters fs =
     (case dict_get parameters ''filepath'' of Inl e \<Rightarrow> (Inl e, fs) | Inr filepath \<Rightarrow>
      (case dict_get parameters ''content'' of Inl e \<Rightarrow> (Inl e, fs) | Inr content \<Rightarrow>
       if \<not> truthy filepath then (Inr (error_payload ''filepath parameter is required''), fs)
       else if content = JNull then (Inr (error_payload ''content parameter is required''), fs)
       else
        (case filepath of
           JStr fp \<Rightarrow>
             (case makedirs fs (dirname (safe_path (TEMP_DIR env) fp)) of
                (Inl e, fs1) \<Rightarrow> (Inl e, fs1)
              | (Inr _, fs1) \<Rightarrow>
                  (case open_write fs1 (safe_path (TEMP_DIR env) fp) content of
                     (Inl e, fs2) \<Rightarrow> (Inl e, fs2)
                   | (Inr _, fs2) \<Rightarrow>
                       (Inr (JObj [(''success'', JBool True), (''filepath'', filepath)]), fs2)))
         | _ \<Rightarrow> (Inl (AttributeError (type_name filepath) ''lstrip''), fs))))"

definition read_file :: "env \<Rightarrow> json \<Rightarrow> filesystem \<Rightarrow> (exn + json) \<times> filesystem" where
  "read_file env parameters fs =
     (case dict_get parameters ''filepath'' of Inl e \<Rightarrow> (Inl e, fs) | Inr filepath \<Rightarrow>
       if \<not> truthy filepath then (Inr (error_payload ''filepath parameter is required''), fs)
       else
        (case filepath of
           JStr fp \<Rightarrow>
             (if \<not> isfile fs (safe_path (TEMP_DIR env) fp)
              then (Inr (error_payload (''File '' @ fp @ '' not found'')), fs)
              else
                (case open_read fs (safe_path (TEMP_DIR env) fp) of
                   Inl e \<Rightarrow> (Inl e, fs)
                 | Inr content \<Rightarrow>
                     (Inr (JObj [(''content'', JStr content), (''filepath'', filepath)]), fs)))
         | _ \<Rightarrow> (Inl (AttributeError (type_name filepath) ''lstrip''), fs)))"

text \<open>One entry of the \<^verbatim>\<open>items\<close> list.\<close>

definition dir_item :: "filesystem \<Rightarrow> string \<Rightarrow> string \<Rightarrow> json" where
  "dir_item fs path item =
     JObj [(''name'', JStr item),
           (''is_directory'', JBool (isdir fs (join path item))),
           (''size'', if isfile fs (join path item) then JInt (getsize fs (join path item))
                      else JNull)]"

definition list_directory :: "env \<Rightarrow> json \<Rightarrow> filesystem \<Rightarrow> (exn + json) \<times> filesystem" where
  "list_directory env parameters fs =
     (case dict_get parameters ''directory_path'' of Inl e \<Rightarrow> (Inl e, fs) | Inr directory_path \<Rightarrow>
       if \<not> truthy directory_path
       then (Inr (error_payload ''directory_path parameter is required''), fs)
       else
        (case directory_path of
           JStr dp \<Rightarrow>
             (case (if \<not> isdir fs (safe_path (TEMP_DIR env) dp)
                    then makedirs fs (safe_path (TEMP_DIR env) dp) else (Inr (), fs)) of
                (Inl e, fs1) \<Rightarrow> (Inl e, fs1)
              | (Inr _, fs1) \<Rightarrow>
                  (case listdir fs1 (safe_path (TEMP_DIR env) dp) of
                     Inl e \<Rightarrow> (Inl e, fs1)
                   | Inr names \<Rightarrow>
                       (Inr (JObj [(''items'',
                                    JArr (map (dir_item fs1 (safe_path (TEMP_DIR env) dp)) names)),
                                   (''directory_path'', directory_path)]), fs1)))
         | _ \<Rightarrow> (Inl (AttributeError (type_name directory_path) ''lstrip''), fs)))"

text \<open>
  \<^verbatim>\<open>[os.path.relpath(match, TEMP_DIR) for match in matches]\<close>: the first empty match, if
  there were one, would raise \<^verbatim>\<open>ValueError\<close>.
\<close>

fun relative_matches :: "string \<Rightarrow> string list \<Rightarrow> exn + string list" where
  "relative_matches temp_dir [] = Inr []"
| "relative_matches temp_dir (m # ms) =
     (case relpath m temp_dir of
        None \<Rightarrow> Inl (ValueError ''no path specified'')
      | Some r \<Rightarrow>
          (case relative_matches temp_dir ms of Inl e \<Rightarrow> Inl e | Inr rs \<Rightarrow> Inr (r # rs)))"

definition search_files :: "env \<Rightarrow> json \<Rightarrow> filesystem \<Rightarrow> (exn + json) \<times> filesystem" where
  "search_files env parameters fs =
     (case dict_get parameters ''directory_path'' of Inl e \<Rightarrow> (Inl e, fs) | Inr directory_path \<Rightarrow>
      (case dict_get parameters ''pattern'' of Inl e \<Rightarrow> (Inl e, fs) | Inr pattern \<Rightarrow>
       if \<not> truthy directory_path
       then (Inr (error_payload ''directory_path parameter is required''), fs)
       else if \<not> truthy pattern then (Inr (error_payload ''pattern parameter is required''), fs)
       else
        (case directory_path of
           JStr dp \<Rightarrow>
             (if \<not> isdir fs (safe_path (TEMP_DIR env) dp)
              then (Inr (error_payload (''Directory '' @ dp @ '' not found'')), fs)
              else
                (case pattern of
                   JStr pat \<Rightarrow>
                     (case relative_matches (TEMP_DIR env)
                             (glob (fnmatch env) fs (join (safe_path (TEMP_DIR env) dp) pat)) of
                        Inl e \<Rightarrow> (Inl e, fs)
                      | Inr rel \<Rightarrow>
                          (Inr (JObj [(''matches'', JArr (map JStr rel)),
                                      (''pattern'', pattern),
                                      (''directory_path'', directory_path)]), fs))
                 | _ \<Rightarrow>
                     (Inl (TypeError
                        (''join() argument must be str, bytes, or os.PathLike object, not ''
                          @ [CHR 0x27] @ type_name pattern @ [CHR 0x27])), fs)))
         | _ \<Rightarrow> (Inl (AttributeError (type_name directory_path) ''lstrip''), fs))))"

definition delete_file :: "env \<Rightarrow> json \<Rightarrow> filesystem \<Rightarrow> (exn + json) \<times> filesystem" where
  "delete_file env parameters fs =
     (case dict_get parameters ''filepath'' of Inl e \<Rightarrow> (Inl e, fs) | Inr filepath \<Rightarrow>
       if \<not> truthy filepath then (Inr (error_payload ''filepath parameter is required''), fs)
       else
        (case filepath of
           JStr fp \<Rightarrow>
             (if \<not> exists fs (safe_path (TEMP_DIR env) fp)
              then (Inr (error_payload (''File or directory '' @ fp @ '' not found'')), fs)
              else
                (case (if isdir fs (safe_path (TEMP_DIR env) fp)
                       then rmtree fs (safe_path (TEMP_DIR env) fp)
                       else remove fs (safe_path (TEMP_DIR env) fp)) of
                   (Inl e, fs1) \<Rightarrow> (Inl e, fs1)
                 | (Inr _, fs1) \<Rightarrow>
                     (Inr (JObj [(''success'', JBool True), (''filepath'', filepath)]), fs1)))
         | _ \<Rightarrow> (Inl (AttributeError (type_name filepath) ''lstrip''), fs)))"

text \<open>The \<^verbatim>\<open>if\<close>/\<^verbatim>\<open>elif\<close> chain on the function name.\<close>

definition dispatch ::
  "env \<Rightarrow> string \<Rightarrow> json \<Rightarrow> filesystem \<Rightarrow> (exn + json) \<times> filesystem" where
  "dispatch env function_name parameters fs =
     (if function_name = ''write_file'' then write_file env parameters fs
      else if function_name = ''read_file'' then read_file env parameters fs
      else if function_name = ''list_directory'' then list_directory env parameters fs
      else if function_name = ''search_files'' then search_files env parameters fs
      else if function_name = ''delete_file'' then delete_file env parameters fs
      else (Inr (error_payload (''Function '' @ function_name @ '' not supported'')), fs))"

text \<open>\<^verbatim>\<open>parameters = json.loads(body) if body else {}\<close>\<close>

definition parse_body :: "env \<Rightarrow> string \<Rightarrow> exn + json" where
  "parse_body env body = (if body \<noteq> [] then json_loads env body else Inr (JObj []))"

text \<open>The \<^verbatim>\<open>try\<close> block: the parameters are read, then the chain runs.\<close>

definition try_block ::
  "env \<Rightarrow> string \<Rightarrow> string \<Rightarrow> filesystem \<Rightarrow> (exn + json) \<times> filesystem" where
  "try_block env function_name body fs =
     (case parse_body env body of
        Inl e \<Rightarrow> (Inl e, fs)
      | Inr parameters \<Rightarrow> dispatch env function_name parameters fs)"

text \<open>
  \<^verbatim>\<open>handle_mcp_request\<close>: the \<^verbatim>\<open>try\<close> block with its two handlers. The result is the payload
  sent back and the file system after the request.
\<close>

definition handle_mcp_request ::
  "env \<Rightarrow> string \<Rightarrow> string \<Rightarrow> filesystem \<Rightarrow> json \<times> filesystem" where
  "handle_mcp_request env function_name body fs =
     (case try_block env function_name body fs of
        (Inr result, fs') \<Rightarrow> (result, fs')
      | (Inl JSONDecodeError, fs') \<Rightarrow> (error_payload ''Invalid JSON in request body'', fs')
      | (Inl e, fs') \<Rightarrow> (error_payload (str_exn (py_repr env) e), fs'))"


section \<open>Auxiliary notions and examples\<close>

text \<open>A real file name: not empty, not \<^verbatim>\<open>.\<close> or \<^verbatim>\<open>..\<close>, and without a separator.\<close>

definition real_name :: "string \<Rightarrow> bool" where
  "real_name c = (c \<noteq> [] \<and> c \<noteq> ''.'' \<and> c \<noteq> ''..'' \<and> sep \<notin> set c)"

text \<open>
  The two shapes of a response: the error mapping with the single key \<^verbatim>\<open>error\<close> and a
  message, and the four success mappings, told by their keys.
\<close>

definition error_shaped :: "json \<Rightarrow> bool" where
  "error_shaped r = (case r of JObj [(k, JStr m)] \<Rightarrow> k = ''error'' | _ \<Rightarrow> False)"

definition success_shaped :: "json \<Rightarrow> bool" where
  "success_shaped r =
     (case r of
        JObj kvs \<Rightarrow>
          map fst kvs \<in> {[''success'', ''filepath''], [''content'', ''filepath''],
                          [''items'', ''directory_path''],
                          [''matches'', ''pattern'', ''directory_path'']}
      | _ \<Rightarrow> False)"

text \<open>The exceptions a branch can raise.\<close>

definition op_exn :: "exn \<Rightarrow> bool" where
  "op_exn e = (case e of
      AttributeError t a \<Rightarrow> True
    | TypeError m \<Rightarrow> (\<exists>t. m = ''write() argument must be str, not '' @ t)
         \<or> (\<exists>t. m = ''join() argument must be str, bytes, or os.PathLike object, not '' @ t)
    | ValueError m \<Rightarrow> m = ''no path specified''
    | OSError n f \<Rightarrow> True
    | _ \<Rightarrow> False)"


text \<open>A regular file lies at the names or at a prefix of them.\<close>

fun file_on_path :: "filesystem \<Rightarrow> string list \<Rightarrow> bool" where
  "file_on_path es [] = False"
| "file_on_path es (c # cs) =
     (case map_of es c of
        None \<Rightarrow> False
      | Some (File s) \<Rightarrow> True
      | Some (Dir sub) \<Rightarrow> file_on_path sub cs)"

text \<open>
  A matcher for the examples: \<^verbatim>\<open>fnmatch\<close> on patterns made of literal characters,
  \<^verbatim>\<open>*\<close> and \<^verbatim>\<open>?\<close>.
\<close>

fun wildcard :: "string \<Rightarrow> string \<Rightarrow> bool" where
  "wildcard name [] = (name = [])"
| "wildcard name (p # ps) =
     (if p = CHR ''*''
      then wildcard name ps \<or> (case name of [] \<Rightarrow> False | _ # rest \<Rightarrow> wildcard rest (p # ps))
      else (case name of [] \<Rightarrow> False | c # rest \<Rightarrow> (p = CHR ''?'' \<or> p = c) \<and> wildcard rest ps))"

text \<open>
  An environment for the examples: the sandbox root is \<^verbatim>\<open>/tmp/fileops_x\<close>, the body \<^verbatim>\<open>{\<close>
  is not JSON and every other body is read as the given value. \<open>fresh_fs\<close> is the file
  system right after \<^verbatim>\<open>tempfile.mkdtemp\<close>.
\<close>

definition example_env :: "json \<Rightarrow> env" where
  "example_env parameters =
     \<lparr>TEMP_DIR = ''/tmp/fileops_x'',
      json_loads = (\<lambda>body. if body = ''{'' then Inl JSONDecodeError else Inr parameters),
      fnmatch = wildcard,
      py_repr = (\<lambda>s. [CHR 0x27] @ s @ [CHR 0x27])\<rparr>"

definition fresh_fs :: filesystem where
  "fresh_fs = [(''tmp'', Dir [(''fileops_x'', Dir [])])]"


text \<open>
  A sandbox with the directory \<^verbatim>\<open>d\<close> of the specification's example: \<^verbatim>\<open>a.txt\<close>, \<^verbatim>\<open>b.log\<close>
  and \<^verbatim>\<open>sub/c.txt\<close>.
\<close>

definition search_fs :: filesystem where
  "search_fs = [(''tmp'', Dir [(''fileops_x'',
      Dir [(''d'', Dir [(''a.txt'', File ''x''), (''b.log'', File ''yy''),
                        (''sub'', Dir [(''c.txt'', File ''zzz'')])])])])]"

section \<open>Normalised paths\<close>

text \<open>
  With an absolute \<^verbatim>\<open>TEMP_DIR\<close>, \<open>safe_path\<close> is one or two separators followed by real
  names joined by separators; the kernel then finds the node at exactly those names.
\<close>

lemma split_sep_nonempty: "split_sep s \<noteq> []"
  by (induction s) (auto split: list.splits)

lemma split_sep_no_sep: "w \<in> set (split_sep s) \<Longrightarrow> sep \<notin> set w"
proof (induction s arbitrary: w)
  case Nil
  then show ?case by simp
next
  case (Cons c s)
  show ?case
  proof (cases "c = sep")
    case True
    with Cons show ?thesis by auto
  next
    case False
    obtain v vs where vs: "split_sep s = v # vs"
      using split_sep_nonempty [of s] by (cases "split_sep s") auto
    with Cons False show ?thesis by auto
  qed
qed

lemma split_sep_append_name:
  "sep \<notin> set c \<Longrightarrow> split_sep (c @ sep # s) = c # split_sep s"
  by (induction c) auto

lemma split_sep_name: "sep \<notin> set c \<Longrightarrow> split_sep c = [c]"
  by (induction c) auto

lemma split_sep_join:
  "cs \<noteq> [] \<Longrightarrow> \<forall>c \<in> set cs. sep \<notin> set c \<Longrightarrow> split_sep (sep_join cs) = cs"
  by (induction cs rule: sep_join.induct) (auto simp: split_sep_append_name split_sep_name)

lemma split_sep_slashes: "split_sep (replicate k sep @ s) = replicate k [] @ split_sep s"
  by (induction k) auto

lemma split_sep_only_slashes: "split_sep (replicate k sep) = replicate (Suc k) []"
  by (induction k) auto

lemma norm_step_names:
  assumes "slashes \<noteq> 0" "\<forall>c \<in> set acc. real_name c" "sep \<notin> set x"
  shows "\<forall>c \<in> set (norm_step slashes acc x). real_name c"
  using assms by (auto simp: norm_step_def real_name_def dest: in_set_butlastD)

lemma norm_fold_names:
  assumes "slashes \<noteq> 0"
  shows "\<forall>c \<in> set acc. real_name c \<Longrightarrow> \<forall>x \<in> set xs. sep \<notin> set x \<Longrightarrow>
    \<forall>c \<in> set (foldl (norm_step slashes) acc xs). real_name c"
proof (induction xs arbitrary: acc)
  case Nil
  then show ?case by simp
next
  case (Cons x xs)
  have "\<forall>c \<in> set (norm_step slashes acc x). real_name c"
    by (rule norm_step_names [OF assms Cons.prems(1)]) (use Cons.prems(2) in simp)
  with Cons show ?case by simp
qed

lemma initial_slashes_abs: "isabs p \<Longrightarrow> initial_slashes p = 1 \<or> initial_slashes p = 2"
  by (simp add: initial_slashes_def)

lemma normpath_abs:
  assumes "isabs p"
  shows "\<exists>k cs. (k = 1 \<or> k = 2) \<and> (\<forall>c \<in> set cs. real_name c)
     \<and> normpath p = replicate k sep @ sep_join cs"
proof -
  let ?k = "initial_slashes p"
  let ?cs = "foldl (norm_step ?k) [] (split_sep p)"
  have k: "?k = 1 \<or> ?k = 2"
    using assms by (rule initial_slashes_abs)
  then have "?k \<noteq> 0" by auto
  then have names: "\<forall>c \<in> set ?cs. real_name c"
    by (rule norm_fold_names) (auto dest: split_sep_no_sep)
  have "p \<noteq> []" using assms by (auto simp: isabs_def)
  moreover have "replicate ?k sep @ sep_join ?cs \<noteq> []" using k by auto
  ultimately have "normpath p = replicate ?k sep @ sep_join ?cs"
    using \<open>?k \<noteq> 0\<close> by (simp add: normpath_def Let_def)
  with k names show ?thesis by blast
qed

lemma isabs_join: "isabs a \<Longrightarrow> isabs (join a b)"
  by (cases a) (auto simp: join_def isabs_def)

lemma safe_path_shape:
  assumes "isabs temp_dir"
  shows "\<exists>k cs. (k = 1 \<or> k = 2) \<and> (\<forall>c \<in> set cs. real_name c)
     \<and> safe_path temp_dir fp = replicate k sep @ sep_join cs"
  unfolding safe_path_def using normpath_abs [OF isabs_join [OF assms]] .

lemma components_shape:
  assumes "\<forall>c \<in> set cs. real_name c"
  shows "components (replicate k sep @ sep_join cs) = cs"
proof (cases "cs = []")
  case True
  then show ?thesis by (simp add: components_def split_sep_only_slashes)
next
  case False
  have "\<forall>c \<in> set cs. sep \<notin> set c" using assms by (simp add: real_name_def)
  with False have "split_sep (sep_join cs) = cs" by (rule split_sep_join)
  moreover have "filter (\<lambda>c. c \<noteq> []) cs = cs"
    using assms by (simp add: real_name_def)
  ultimately show ?thesis by (simp add: components_def split_sep_slashes)
qed

lemma walk_names: "\<forall>c \<in> set cs. real_name c \<Longrightarrow> walk cur ups cs = lookup cur cs"
  by (induction cs arbitrary: cur ups) (auto simp: real_name_def split: option.splits node.splits)

lemma walk_empties: "walk cur ups (replicate k [] @ cs) = walk cur ups cs"
  by (induction k) auto

lemma stat_shape:
  assumes "\<forall>c \<in> set cs. real_name c" "0 < k"
  shows "stat fs (replicate k sep @ sep_join cs) = lookup fs cs"
proof (cases "cs = []")
  case True
  have "walk fs [] (replicate (Suc k) [] @ []) = Some (Dir fs)"
    unfolding walk_empties by simp
  with True assms show ?thesis by (simp add: stat_def split_sep_only_slashes)
next
  case False
  have "\<forall>c \<in> set cs. sep \<notin> set c" using assms by (simp add: real_name_def)
  with False have "split_sep (sep_join cs) = cs" by (rule split_sep_join)
  with assms show ?thesis by (simp add: stat_def split_sep_slashes walk_empties walk_names)
qed

lemma safe_path_facts:
  assumes "isabs temp_dir"
  shows "safe_path temp_dir fp \<noteq> []"
    and "\<forall>c \<in> set (components (safe_path temp_dir fp)). real_name c"
    and "stat fs (safe_path temp_dir fp) = lookup fs (components (safe_path temp_dir fp))"
proof -
  obtain k cs where k: "k = 1 \<or> k = 2" and cs: "\<forall>c \<in> set cs. real_name c"
    and eq: "safe_path temp_dir fp = replicate k sep @ sep_join cs"
    using safe_path_shape [OF assms] by blast
  from k show "safe_path temp_dir fp \<noteq> []" unfolding eq by auto
  show "\<forall>c \<in> set (components (safe_path temp_dir fp)). real_name c"
    unfolding eq components_shape [OF cs] using cs .
  from k have "0 < k" by auto
  then show "stat fs (safe_path temp_dir fp) = lookup fs (components (safe_path temp_dir fp))"
    unfolding eq components_shape [OF cs] using cs by (simp add: stat_shape)
qed


section \<open>Outcomes of the branches\<close>

text \<open>
  Every branch ends in one of three ways: an exception of the kinds above, an early return
  of an error mapping with the file system untouched, or its success mapping.
\<close>

lemma try_block_parsed:
  "parse_body env body = Inr ps \<Longrightarrow> try_block env fn body fs = dispatch env fn ps fs"
  by (simp add: try_block_def)

lemma try_block_failed:
  "parse_body env body = Inl e \<Longrightarrow> try_block env fn body fs = (Inl e, fs)"
  by (simp add: try_block_def)

lemma handle_raised:
  "try_block env fn body fs = (Inl e, fs') \<Longrightarrow>
   handle_mcp_request env fn body fs =
     (error_payload (if e = JSONDecodeError then ''Invalid JSON in request body''
                     else str_exn (py_repr env) e), fs')"
  by (cases e) (simp_all add: handle_mcp_request_def)

lemma handle_returned:
  "try_block env fn body fs = (Inr r, fs') \<Longrightarrow> handle_mcp_request env fn body fs = (r, fs')"
  by (simp add: handle_mcp_request_def)

lemma op_exn_message:
  assumes "op_exn e"
  shows "e \<noteq> JSONDecodeError"
    and "str_exn r e \<noteq> ''filepath parameter is required''"
    and "str_exn r e \<noteq> ''content parameter is required''"
proof -
  show "e \<noteq> JSONDecodeError"
    using assms by (auto simp: op_exn_def)
  have "str_exn r e \<noteq> [] \<and> hd (str_exn r e) \<noteq> CHR ''f'' \<and> hd (str_exn r e) \<noteq> CHR ''c''"
  proof (cases e)
    case (OSError n f)
    then show ?thesis by (cases n) simp_all
  qed (use assms in \<open>auto simp: op_exn_def\<close>)
  then show "str_exn r e \<noteq> ''filepath parameter is required''"
    and "str_exn r e \<noteq> ''content parameter is required''"
    by auto
qed

lemma makedirs_cases:
  "(\<exists>e f. makedirs fs p = (Inl (OSError e f), fs)) \<or> (\<exists>fs'. makedirs fs p = (Inr (), fs'))"
  by (auto simp: makedirs_def split: sum.splits prod.splits)

lemma open_write_cases:
  "(\<exists>e f. open_write fs p c = (Inl (OSError e f), fs))
   \<or> (\<exists>fs'. open_write fs p c = (Inl (TypeError (''write() argument must be str, not '' @ type_name c)), fs'))
   \<or> (\<exists>fs'. open_write fs p c = (Inr (), fs'))"
  by (auto simp: open_write_def split: sum.splits json.splits)

lemma rmtree_cases:
  "(\<exists>e f fs'. rmtree fs p = (Inl (OSError e f), fs')) \<or> (\<exists>fs'. rmtree fs p = (Inr (), fs'))"
  by (auto simp: rmtree_def split: sum.splits)

lemma remove_cases:
  "(\<exists>e f. remove fs p = (Inl (OSError e f), fs)) \<or> (\<exists>fs'. remove fs p = (Inr (), fs'))"
  by (auto simp: remove_def split: sum.splits)

lemma listdir_cases:
  "(\<exists>e f. listdir fs p = Inl (OSError e f)) \<or> (\<exists>names. listdir fs p = Inr names)"
  by (auto simp: listdir_def split: option.splits node.splits)

lemma open_read_cases:
  "(\<exists>e f. open_read fs p = Inl (OSError e f)) \<or> (\<exists>s. open_read fs p = Inr s)"
  by (auto simp: open_read_def split: option.splits node.splits)

lemma relative_matches_cases:
  "relative_matches t ms = Inl (ValueError ''no path specified'')
   \<or> (\<exists>rs. relative_matches t ms = Inr rs)"
  by (induction ms) (auto split: option.splits sum.splits)

lemma json_not_str:
  "\<forall>s. v \<noteq> JStr s \<Longrightarrow> (case v of JStr s \<Rightarrow> f s | _ \<Rightarrow> d) = d"
  by (cases v) auto

lemma dict_get_not_dict:
  "\<forall>kvs. ps \<noteq> JObj kvs \<Longrightarrow> dict_get ps k = Inl (AttributeError (type_name ps) ''get'')"
  by (cases ps) (auto simp: dict_get_def)

lemma dict_get_dict: "dict_get (JObj kvs) k = Inr (dict_value kvs k)"
  by (simp add: dict_get_def)

lemma write_file_outcome:
  "(\<exists>e fs'. write_file env ps fs = (Inl e, fs') \<and> op_exn e)
   \<or> (\<exists>m. write_file env ps fs = (Inr (error_payload m), fs))
   \<or> (\<exists>v fs'. write_file env ps fs = (Inr (JObj [(''success'', JBool True), (''filepath'', v)]), fs'))"
proof (cases "\<exists>kvs. ps = JObj kvs")
  case False
  then show ?thesis by (simp add: write_file_def dict_get_not_dict op_exn_def)
next
  case True
  then obtain kvs where ps: "ps = JObj kvs" by blast
  let ?fp = "dict_value kvs ''filepath''"
  let ?c = "dict_value kvs ''content''"
  show ?thesis
  proof (cases "truthy ?fp \<and> ?c \<noteq> JNull")
    case False
    then show ?thesis by (auto simp: write_file_def ps dict_get_dict)
  next
    case ok: True
    show ?thesis
    proof (cases "\<exists>s. ?fp = JStr s")
      case False
      then show ?thesis by (simp add: write_file_def ps dict_get_dict ok json_not_str op_exn_def)
    next
      case True
      then obtain s where s: "?fp = JStr s" by blast
      let ?p = "safe_path (TEMP_DIR env) s"
      from makedirs_cases [of fs "dirname ?p"] show ?thesis
      proof (elim disjE exE)
        fix e f assume "makedirs fs (dirname ?p) = (Inl (OSError e f), fs)"
        then show ?thesis using ok by (simp add: write_file_def ps dict_get_dict s op_exn_def)
      next
        fix fs1 assume m: "makedirs fs (dirname ?p) = (Inr (), fs1)"
        from open_write_cases [of fs1 ?p ?c] show ?thesis
          using ok m by (auto simp: write_file_def ps dict_get_dict s op_exn_def)
      qed
    qed
  qed
qed


lemma read_file_outcome:
  "(\<exists>e. read_file env ps fs = (Inl e, fs) \<and> op_exn e)
   \<or> (\<exists>m. read_file env ps fs = (Inr (error_payload m), fs))
   \<or> (\<exists>c v. read_file env ps fs = (Inr (JObj [(''content'', JStr c), (''filepath'', v)]), fs))"
proof (cases "\<exists>kvs. ps = JObj kvs")
  case False
  then show ?thesis by (simp add: read_file_def dict_get_not_dict op_exn_def)
next
  case True
  then obtain kvs where ps: "ps = JObj kvs" by blast
  let ?fp = "dict_value kvs ''filepath''"
  show ?thesis
  proof (cases "truthy ?fp")
    case False
    then show ?thesis by (auto simp: read_file_def ps dict_get_dict)
  next
    case ok: True
    show ?thesis
    proof (cases "\<exists>s. ?fp = JStr s")
      case False
      then show ?thesis by (simp add: read_file_def ps dict_get_dict ok json_not_str op_exn_def)
    next
      case True
      then obtain s where s: "?fp = JStr s" by blast
      from open_read_cases [of fs "safe_path (TEMP_DIR env) s"] show ?thesis
        using ok by (auto simp: read_file_def ps dict_get_dict s op_exn_def)
    qed
  qed
qed

lemma list_directory_outcome:
  "(\<exists>e fs'. list_directory env ps fs = (Inl e, fs') \<and> op_exn e)
   \<or> (\<exists>m. list_directory env ps fs = (Inr (error_payload m), fs))
   \<or> (\<exists>xs v fs'. list_directory env ps fs =
         (Inr (JObj [(''items'', JArr xs), (''directory_path'', v)]), fs'))"
proof (cases "\<exists>kvs. ps = JObj kvs")
  case False
  then show ?thesis by (simp add: list_directory_def dict_get_not_dict op_exn_def)
next
  case True
  then obtain kvs where ps: "ps = JObj kvs" by blast
  let ?dp = "dict_value kvs ''directory_path''"
  show ?thesis
  proof (cases "truthy ?dp")
    case False
    then show ?thesis by (auto simp: list_directory_def ps dict_get_dict)
  next
    case ok: True
    show ?thesis
    proof (cases "\<exists>s. ?dp = JStr s")
      case False
      then show ?thesis
        by (simp add: list_directory_def ps dict_get_dict ok json_not_str op_exn_def)
    next
      case True
      then obtain s where s: "?dp = JStr s" by blast
      let ?p = "safe_path (TEMP_DIR env) s"
      let ?m = "if \<not> isdir fs ?p then makedirs fs ?p else (Inr (), fs)"
      have "(\<exists>e f. ?m = (Inl (OSError e f), fs)) \<or> (\<exists>fs1. ?m = (Inr (), fs1))"
        using makedirs_cases [of fs ?p] by auto
      then show ?thesis
      proof (elim disjE exE)
        fix e f assume "?m = (Inl (OSError e f), fs)"
        then show ?thesis using ok by (simp add: list_directory_def ps dict_get_dict s op_exn_def)
      next
        fix fs1 assume m: "?m = (Inr (), fs1)"
        from listdir_cases [of fs1 ?p] show ?thesis
          using ok m by (auto simp: list_directory_def ps dict_get_dict s op_exn_def)
      qed
    qed
  qed
qed

lemma search_files_outcome:
  "(\<exists>e. search_files env ps fs = (Inl e, fs) \<and> op_exn e)
   \<or> (\<exists>m. search_files env ps fs = (Inr (error_payload m), fs))
   \<or> (\<exists>xs p v. search_files env ps fs =
         (Inr (JObj [(''matches'', JArr xs), (''pattern'', p), (''directory_path'', v)]), fs))"
proof (cases "\<exists>kvs. ps = JObj kvs")
  case False
  then show ?thesis by (simp add: search_files_def dict_get_not_dict op_exn_def)
next
  case True
  then obtain kvs where ps: "ps = JObj kvs" by blast
  let ?dp = "dict_value kvs ''directory_path''"
  let ?pat = "dict_value kvs ''pattern''"
  show ?thesis
  proof (cases "truthy ?dp \<and> truthy ?pat")
    case False
    then show ?thesis by (auto simp: search_files_def ps dict_get_dict)
  next
    case ok: True
    show ?thesis
    proof (cases "\<exists>s. ?dp = JStr s")
      case False
      then show ?thesis
        by (simp add: search_files_def ps dict_get_dict ok json_not_str op_exn_def)
    next
      case True
      then obtain s where s: "?dp = JStr s" by blast
      let ?p = "safe_path (TEMP_DIR env) s"
      show ?thesis
      proof (cases "isdir fs ?p")
        case False
        then show ?thesis using ok by (auto simp: search_files_def ps dict_get_dict s)
      next
        case dir: True
        show ?thesis
        proof (cases "\<exists>q. ?pat = JStr q")
          case False
          then show ?thesis
            using ok dir by (simp add: search_files_def ps dict_get_dict s json_not_str op_exn_def)
        next
          case True
          then obtain q where q: "?pat = JStr q" by blast
          from relative_matches_cases [of "TEMP_DIR env" "glob (fnmatch env) fs (join ?p q)"]
          show ?thesis
            using ok dir by (auto simp: search_files_def ps dict_get_dict s q op_exn_def)
        qed
      qed
    qed
  qed
qed

lemma delete_file_outcome:
  "(\<exists>e fs'. delete_file env ps fs = (Inl e, fs') \<and> op_exn e)
   \<or> (\<exists>m. delete_file env ps fs = (Inr (error_payload m), fs))
   \<or> (\<exists>v fs'. delete_file env ps fs =
         (Inr (JObj [(''success'', JBool True), (''filepath'', v)]), fs'))"
proof (cases "\<exists>kvs. ps = JObj kvs")
  case False
  then show ?thesis by (simp add: delete_file_def dict_get_not_dict op_exn_def)
next
  case True
  then obtain kvs where ps: "ps = JObj kvs" by blast
  let ?fp = "dict_value kvs ''filepath''"
  show ?thesis
  proof (cases "truthy ?fp")
    case False
    then show ?thesis by (auto simp: delete_file_def ps dict_get_dict)
  next
    case ok: True
    show ?thesis
    proof (cases "\<exists>s. ?fp = JStr s")
      case False
      then show ?thesis by (simp add: delete_file_def ps dict_get_dict ok json_not_str op_exn_def)
    next
      case True
      then obtain s where s: "?fp = JStr s" by blast
      let ?p = "safe_path (TEMP_DIR env) s"
      let ?d = "if isdir fs ?p then rmtree fs ?p else remove fs ?p"
      have "(\<exists>e f fs1. ?d = (Inl (OSError e f), fs1)) \<or> (\<exists>fs1. ?d = (Inr (), fs1))"
        using rmtree_cases [of fs ?p] remove_cases [of fs ?p] by auto
      then show ?thesis
        using ok by (auto simp: delete_file_def ps dict_get_dict s op_exn_def)
    qed
  qed
qed

lemma dispatch_outcome:
  "(\<exists>e fs'. dispatch env fn ps fs = (Inl e, fs') \<and> op_exn e)
   \<or> (\<exists>m. dispatch env fn ps fs = (Inr (error_payload m), fs))
   \<or> (\<exists>r fs'. dispatch env fn ps fs = (Inr r, fs') \<and> success_shaped r)"
proof -
  have a: "success_shaped (JObj [(''success'', JBool True), (''filepath'', v)])"
    and b: "success_shaped (JObj [(''content'', JStr c), (''filepath'', v)])"
    and c: "success_shaped (JObj [(''items'', JArr xs), (''directory_path'', v)])"
    and d: "success_shaped (JObj [(''matches'', JArr xs), (''pattern'', p), (''directory_path'', v)])"
    for v c xs p
    by (simp_all add: success_shaped_def)
  show ?thesis
    unfolding dispatch_def
    using write_file_outcome [of env ps fs] read_file_outcome [of env ps fs]
      list_directory_outcome [of env ps fs] search_files_outcome [of env ps fs]
      delete_file_outcome [of env ps fs] a b c d
    by (cases "fn = ''write_file''"; cases "fn = ''read_file''"; cases "fn = ''list_directory''";
        cases "fn = ''search_files''"; cases "fn = ''delete_file''") (simp_all, blast+)
qed

section \<open>Path escape\<close>

text \<open>
  Claim C1 says that a path with enough \<^verbatim>\<open>..\<close> segments is rejected. The handler has no
  such check: \<^verbatim>\<open>../escaped.txt\<close> resolves to \<^verbatim>\<open>/tmp/escaped.txt\<close>, which is outside the root
  \<^verbatim>\<open>/tmp/fileops_x\<close>, and \<^verbatim>\<open>write_file\<close> reports success and creates the file there.
\<close>

theorem path_escape_not_rejected:
  "safe_path ''/tmp/fileops_x'' ''../escaped.txt'' = ''/tmp/escaped.txt''
   \<and> \<not> inside ''/tmp/fileops_x'' ''/tmp/escaped.txt''
   \<and> handle_mcp_request
        (example_env (JObj [(''filepath'', JStr ''../escaped.txt''), (''content'', JStr ''x'')]))
        ''write_file'' ''{}'' fresh_fs
      = (JObj [(''success'', JBool True), (''filepath'', JStr ''../escaped.txt'')],
         [(''tmp'', Dir [(''fileops_x'', Dir []), (''escaped.txt'', File ''x'')])])"
  by code_simp


section \<open>Response shapes and the exception boundary\<close>

lemma shapes_apart:
  "error_shaped (error_payload m)" "\<not> success_shaped (error_payload m)"
  "success_shaped r \<Longrightarrow> \<not> error_shaped r"
  by (auto simp: error_shaped_def success_shaped_def error_payload_def split: json.splits list.splits)

lemma try_block_outcome:
  "(\<exists>e fs'. try_block env fn body fs = (Inl e, fs'))
   \<or> (\<exists>m. try_block env fn body fs = (Inr (error_payload m), fs))
   \<or> (\<exists>r fs'. try_block env fn body fs = (Inr r, fs') \<and> success_shaped r)"
proof (cases "parse_body env body")
  case (Inl e)
  then show ?thesis by (simp add: try_block_failed)
next
  case (Inr ps)
  then show ?thesis
    using dispatch_outcome [of env fn ps fs] by (auto simp: try_block_parsed)
qed

text \<open>
  Claim C3. Whatever the function name, the body and the file system, the response is
  either the error mapping or one of the success mappings, never both and never neither;
  and an exception raised inside the \<^verbatim>\<open>try\<close> block does not leave the handler: the
  response is then the error mapping with the message of the exception (the fixed message
  for a body that is not JSON).
\<close>

theorem response_shape:
  "error_shaped (fst (handle_mcp_request env function_name body fs))
     = (\<not> success_shaped (fst (handle_mcp_request env function_name body fs)))
   \<and> (try_block env function_name body fs = (Inl e, fs') \<longrightarrow>
        handle_mcp_request env function_name body fs =
          (error_payload (if e = JSONDecodeError then ''Invalid JSON in request body''
                          else str_exn (py_repr env) e), fs'))"
proof
  from try_block_outcome [of env function_name body fs]
  show "error_shaped (fst (handle_mcp_request env function_name body fs))
     = (\<not> success_shaped (fst (handle_mcp_request env function_name body fs)))"
  proof (elim disjE exE conjE)
    fix e fs1 assume "try_block env function_name body fs = (Inl e, fs1)"
    from handle_raised [OF this] show ?thesis by (simp add: shapes_apart)
  next
    fix m assume "try_block env function_name body fs = (Inr (error_payload m), fs)"
    from handle_returned [OF this] show ?thesis by (simp add: shapes_apart)
  next
    fix r fs1 assume "try_block env function_name body fs = (Inr r, fs1)" and "success_shaped r"
    with handle_returned [OF this(1)] show ?thesis by (simp add: shapes_apart)
  qed
next
  show "try_block env function_name body fs = (Inl e, fs') \<longrightarrow>
        handle_mcp_request env function_name body fs =
          (error_payload (if e = JSONDecodeError then ''Invalid JSON in request body''
                          else str_exn (py_repr env) e), fs')"
    using handle_raised by blast
qed

theorem response_shape_witness:
  "try_block (example_env (JArr [])) ''read_file'' ''[]'' fresh_fs
     = (Inl (AttributeError ''list'' ''get''), fresh_fs)
   \<and> handle_mcp_request (example_env (JArr [])) ''read_file'' ''[]'' fresh_fs
     = (error_payload (str_exn (py_repr (example_env (JArr []))) (AttributeError ''list'' ''get'')), fresh_fs)
   \<and> error_shaped (fst (handle_mcp_request (example_env (JArr [])) ''read_file'' ''[]'' fresh_fs))"
proof -
  have t: "try_block (example_env (JArr [])) ''read_file'' ''[]'' fresh_fs
     = (Inl (AttributeError ''list'' ''get''), fresh_fs)"
    by (simp add: try_block_def parse_body_def example_env_def dispatch_def read_file_def
        dict_get_def)
  from response_shape [of "example_env (JArr [])" "''read_file''" "''[]''" fresh_fs
      "AttributeError ''list'' ''get''" fresh_fs] t
  show ?thesis by (simp add: shapes_apart)
qed

section \<open>The empty body\<close>

text \<open>
  Claim C10. An empty body stands for the empty parameter mapping: the response is the
  missing-parameter error of the operation, or the unsupported-function error, and not the
  \<^verbatim>\<open>Invalid JSON in request body\<close> error. The \<^verbatim>\<open>JSONDecodeError\<close> handler is reached only
  when the body is not empty and \<^verbatim>\<open>json.loads\<close> raised that exception on it.
\<close>

theorem empty_body_is_empty_mapping:
  "handle_mcp_request env function_name [] fs =
     (error_payload
        (if function_name = ''write_file'' \<or> function_name = ''read_file''
            \<or> function_name = ''delete_file''
         then ''filepath parameter is required''
         else if function_name = ''list_directory'' \<or> function_name = ''search_files''
         then ''directory_path parameter is required''
         else ''Function '' @ function_name @ '' not supported''), fs)
   \<and> fst (handle_mcp_request env function_name [] fs)
        \<noteq> error_payload ''Invalid JSON in request body''
   \<and> (fst (try_block env function_name body fs) = Inl JSONDecodeError \<longrightarrow>
        body \<noteq> [] \<and> json_loads env body = Inl JSONDecodeError)"
proof (intro conjI)
  show a: "handle_mcp_request env function_name [] fs =
     (error_payload
        (if function_name = ''write_file'' \<or> function_name = ''read_file''
            \<or> function_name = ''delete_file''
         then ''filepath parameter is required''
         else if function_name = ''list_directory'' \<or> function_name = ''search_files''
         then ''directory_path parameter is required''
         else ''Function '' @ function_name @ '' not supported''), fs)"
    by (simp add: handle_mcp_request_def try_block_def parse_body_def dispatch_def
        write_file_def read_file_def delete_file_def list_directory_def search_files_def
        dict_get_def dict_value_def)
  show "fst (handle_mcp_request env function_name [] fs)
        \<noteq> error_payload ''Invalid JSON in request body''"
    unfolding a by (simp add: error_payload_def)
  show "fst (try_block env function_name body fs) = Inl JSONDecodeError \<longrightarrow>
        body \<noteq> [] \<and> json_loads env body = Inl JSONDecodeError"
  proof
    assume r: "fst (try_block env function_name body fs) = Inl JSONDecodeError"
    show "body \<noteq> [] \<and> json_loads env body = Inl JSONDecodeError"
    proof (cases "parse_body env body")
      case (Inl e)
      with r have "e = JSONDecodeError" by (simp add: try_block_failed)
      with Inl show ?thesis by (auto simp: parse_body_def split: if_splits)
    next
      case (Inr ps)
      with r dispatch_outcome [of env function_name ps fs] show ?thesis
        by (auto simp: try_block_parsed dest: op_exn_message(1))
    qed
  qed
qed

theorem empty_body_is_empty_mapping_witness:
  "fst (try_block (example_env JNull) ''read_file'' ''{'' fresh_fs) = Inl JSONDecodeError
   \<and> ''{'' \<noteq> [] \<and> json_loads (example_env JNull) ''{'' = Inl JSONDecodeError
   \<and> handle_mcp_request (example_env JNull) ''read_file'' [] fresh_fs
       = (error_payload ''filepath parameter is required'', fresh_fs)"
proof -
  have t: "fst (try_block (example_env JNull) ''read_file'' ''{'' fresh_fs) = Inl JSONDecodeError"
    by (simp add: try_block_def parse_body_def example_env_def)
  from empty_body_is_empty_mapping [of "example_env JNull" "''read_file''" fresh_fs "''{''"] t
  show ?thesis by simp
qed



section \<open>Validation of write_file\<close>

lemma write_file_valid_outcome:
  assumes "truthy (dict_value kvs ''filepath'')" "dict_value kvs ''content'' \<noteq> JNull"
  shows "(\<exists>e fs'. write_file env (JObj kvs) fs = (Inl e, fs') \<and> op_exn e)
   \<or> (\<exists>fs'. write_file env (JObj kvs) fs =
         (Inr (JObj [(''success'', JBool True), (''filepath'', dict_value kvs ''filepath'')]), fs'))"
proof (cases "\<exists>s. dict_value kvs ''filepath'' = JStr s")
  case False
  then show ?thesis
    using assms by (simp add: write_file_def dict_get_dict json_not_str op_exn_def)
next
  case True
  then obtain s where s: "dict_value kvs ''filepath'' = JStr s" by blast
  let ?p = "safe_path (TEMP_DIR env) s"
  from makedirs_cases [of fs "dirname ?p"] show ?thesis
  proof (elim disjE exE)
    fix e f assume "makedirs fs (dirname ?p) = (Inl (OSError e f), fs)"
    then show ?thesis using assms by (simp add: write_file_def dict_get_dict s op_exn_def)
  next
    fix fs1 assume m: "makedirs fs (dirname ?p) = (Inr (), fs1)"
    from open_write_cases [of fs1 ?p "dict_value kvs ''content''"] show ?thesis
      using assms m by (auto simp: write_file_def dict_get_dict s op_exn_def)
  qed
qed

text \<open>
  Claim C8. For a request whose body gives a parameter mapping, \<^verbatim>\<open>write_file\<close> answers
  with a required-parameter error exactly when \<^verbatim>\<open>filepath\<close> is missing (absent, null or
  empty: what \<^verbatim>\<open>not filepath\<close> tests) or \<^verbatim>\<open>content\<close> is absent or null. A present content,
  the empty string included, passes validation: the response is then never one of the two
  validation errors. The witness writes the empty string and succeeds.
\<close>

theorem write_file_validation:
  assumes "parse_body env body = Inr (JObj kvs)"
  shows "(\<not> truthy (dict_value kvs ''filepath'') \<longrightarrow>
            handle_mcp_request env ''write_file'' body fs
              = (error_payload ''filepath parameter is required'', fs))
   \<and> (truthy (dict_value kvs ''filepath'') \<and> dict_value kvs ''content'' = JNull \<longrightarrow>
            handle_mcp_request env ''write_file'' body fs
              = (error_payload ''content parameter is required'', fs))
   \<and> (truthy (dict_value kvs ''filepath'') \<and> dict_value kvs ''content'' \<noteq> JNull \<longrightarrow>
            fst (handle_mcp_request env ''write_file'' body fs)
              \<noteq> error_payload ''filepath parameter is required''
          \<and> fst (handle_mcp_request env ''write_file'' body fs)
              \<noteq> error_payload ''content parameter is required'')"
proof -
  have t: "try_block env ''write_file'' body fs = write_file env (JObj kvs) fs"
    using assms by (simp add: try_block_parsed dispatch_def)
  have a: "\<not> truthy (dict_value kvs ''filepath'') \<Longrightarrow>
      handle_mcp_request env ''write_file'' body fs
        = (error_payload ''filepath parameter is required'', fs)"
    by (rule handle_returned) (simp add: t write_file_def dict_get_dict)
  have b: "truthy (dict_value kvs ''filepath'') \<Longrightarrow> dict_value kvs ''content'' = JNull \<Longrightarrow>
      handle_mcp_request env ''write_file'' body fs
        = (error_payload ''content parameter is required'', fs)"
    by (rule handle_returned) (simp add: t write_file_def dict_get_dict)
  have c: "fst (handle_mcp_request env ''write_file'' body fs)
              \<noteq> error_payload ''filepath parameter is required''
          \<and> fst (handle_mcp_request env ''write_file'' body fs)
              \<noteq> error_payload ''content parameter is required''"
    if ok: "truthy (dict_value kvs ''filepath'')" "dict_value kvs ''content'' \<noteq> JNull"
    using write_file_valid_outcome [OF ok, of env fs]
  proof (elim disjE exE conjE)
    fix e fs1 assume "write_file env (JObj kvs) fs = (Inl e, fs1)" and e: "op_exn e"
    then have "try_block env ''write_file'' body fs = (Inl e, fs1)" by (simp add: t)
    from handle_raised [OF this] op_exn_message(1) [OF e] op_exn_message(2,3) [OF e, of "py_repr env"]
    show ?thesis by (simp add: error_payload_def)
  next
    fix fs1 assume "write_file env (JObj kvs) fs =
         (Inr (JObj [(''success'', JBool True), (''filepath'', dict_value kvs ''filepath'')]), fs1)"
    then have "try_block env ''write_file'' body fs =
         (Inr (JObj [(''success'', JBool True), (''filepath'', dict_value kvs ''filepath'')]), fs1)"
      by (simp add: t)
    from handle_returned [OF this] show ?thesis by (simp add: error_payload_def)
  qed
  from a b c show ?thesis by blast
qed

theorem write_file_validation_witness:
  "parse_body (example_env (JObj [(''filepath'', JStr ''a.txt''), (''content'', JStr [])])) ''{}''
     = Inr (JObj [(''filepath'', JStr ''a.txt''), (''content'', JStr [])])
   \<and> truthy (dict_value [(''filepath'', JStr ''a.txt''), (''content'', JStr [])] ''filepath'')
   \<and> dict_value [(''filepath'', JStr ''a.txt''), (''content'', JStr [])] ''content'' \<noteq> JNull
   \<and> fst (handle_mcp_request
        (example_env (JObj [(''filepath'', JStr ''a.txt''), (''content'', JStr [])]))
        ''write_file'' ''{}'' fresh_fs) \<noteq> error_payload ''content parameter is required''
   \<and> handle_mcp_request
        (example_env (JObj [(''filepath'', JStr ''a.txt''), (''content'', JStr [])]))
        ''write_file'' ''{}'' fresh_fs
      = (JObj [(''success'', JBool True), (''filepath'', JStr ''a.txt'')],
         [(''tmp'', Dir [(''fileops_x'', Dir [(''a.txt'', File [])])])])"
proof -
  have p: "parse_body (example_env (JObj [(''filepath'', JStr ''a.txt''), (''content'', JStr [])])) ''{}''
     = Inr (JObj [(''filepath'', JStr ''a.txt''), (''content'', JStr [])])"
    by (simp add: parse_body_def example_env_def)
  have h: "handle_mcp_request
        (example_env (JObj [(''filepath'', JStr ''a.txt''), (''content'', JStr [])]))
        ''write_file'' ''{}'' fresh_fs
      = (JObj [(''success'', JBool True), (''filepath'', JStr ''a.txt'')],
         [(''tmp'', Dir [(''fileops_x'', Dir [(''a.txt'', File [])])])])"
    by code_simp
  from write_file_validation [OF p, of fresh_fs] p h
  show ?thesis by (simp add: dict_value_def)
qed

section \<open>search_files needs its directory\<close>

text \<open>
  Claim C5. \<^verbatim>\<open>search_files\<close> never changes the file system, so it creates no directory;
  with both parameters supplied and a resolved directory that does not exist, the response
  is the error \<^verbatim>\<open>Directory <directory_path> not found\<close>.
\<close>

theorem search_files_requires_directory:
  "snd (handle_mcp_request env ''search_files'' body fs) = fs
   \<and> (parse_body env body = Inr (JObj kvs)
        \<and> dict_value kvs ''directory_path'' = JStr dp \<and> dp \<noteq> []
        \<and> truthy (dict_value kvs ''pattern'')
        \<and> \<not> isdir fs (safe_path (TEMP_DIR env) dp) \<longrightarrow>
      handle_mcp_request env ''search_files'' body fs
        = (error_payload (''Directory '' @ dp @ '' not found''), fs))"
proof
  show "snd (handle_mcp_request env ''search_files'' body fs) = fs"
  proof (cases "parse_body env body")
    case (Inl e)
    from handle_raised [OF try_block_failed [OF this]] show ?thesis by simp
  next
    case (Inr ps)
    then have t: "try_block env ''search_files'' body fs = search_files env ps fs"
      by (simp add: try_block_parsed dispatch_def)
    from search_files_outcome [of env ps fs] show ?thesis
    proof (elim disjE exE conjE)
      fix e assume "search_files env ps fs = (Inl e, fs)"
      then have "try_block env ''search_files'' body fs = (Inl e, fs)" by (simp add: t)
      from handle_raised [OF this] show ?thesis by simp
    next
      fix m assume "search_files env ps fs = (Inr (error_payload m), fs)"
      then have "try_block env ''search_files'' body fs = (Inr (error_payload m), fs)"
        by (simp add: t)
      from handle_returned [OF this] show ?thesis by simp
    next
      fix xs p v
      assume "search_files env ps fs =
        (Inr (JObj [(''matches'', JArr xs), (''pattern'', p), (''directory_path'', v)]), fs)"
      then have "try_block env ''search_files'' body fs =
        (Inr (JObj [(''matches'', JArr xs), (''pattern'', p), (''directory_path'', v)]), fs)"
        by (simp add: t)
      from handle_returned [OF this] show ?thesis by simp
    qed
  qed
next
  show "parse_body env body = Inr (JObj kvs)
        \<and> dict_value kvs ''directory_path'' = JStr dp \<and> dp \<noteq> []
        \<and> truthy (dict_value kvs ''pattern'')
        \<and> \<not> isdir fs (safe_path (TEMP_DIR env) dp) \<longrightarrow>
      handle_mcp_request env ''search_files'' body fs
        = (error_payload (''Directory '' @ dp @ '' not found''), fs)"
  proof (intro impI, elim conjE)
    assume p: "parse_body env body = Inr (JObj kvs)"
      and d: "dict_value kvs ''directory_path'' = JStr dp" "dp \<noteq> []"
      and q: "truthy (dict_value kvs ''pattern'')"
      and n: "\<not> isdir fs (safe_path (TEMP_DIR env) dp)"
    have "try_block env ''search_files'' body fs
        = (Inr (error_payload (''Directory '' @ dp @ '' not found'')), fs)"
      using d q n by (simp add: try_block_parsed [OF p] dispatch_def search_files_def dict_get_dict)
    then show "handle_mcp_request env ''search_files'' body fs
        = (error_payload (''Directory '' @ dp @ '' not found''), fs)"
      by (rule handle_returned)
  qed
qed

theorem search_files_requires_directory_witness:
  "parse_body (example_env (JObj [(''directory_path'', JStr ''docs''), (''pattern'', JStr ''*'')])) ''{}''
     = Inr (JObj [(''directory_path'', JStr ''docs''), (''pattern'', JStr ''*'')])
   \<and> dict_value [(''directory_path'', JStr ''docs''), (''pattern'', JStr ''*'')] ''directory_path''
       = JStr ''docs''
   \<and> ''docs'' \<noteq> []
   \<and> truthy (dict_value [(''directory_path'', JStr ''docs''), (''pattern'', JStr ''*'')] ''pattern'')
   \<and> \<not> isdir fresh_fs
         (safe_path (TEMP_DIR (example_env
            (JObj [(''directory_path'', JStr ''docs''), (''pattern'', JStr ''*'')]))) ''docs'')
   \<and> handle_mcp_request
        (example_env (JObj [(''directory_path'', JStr ''docs''), (''pattern'', JStr ''*'')]))
        ''search_files'' ''{}'' fresh_fs
      = (error_payload ''Directory docs not found'', fresh_fs)"
proof -
  have p: "parse_body (example_env (JObj [(''directory_path'', JStr ''docs''), (''pattern'', JStr ''*'')])) ''{}''
     = Inr (JObj [(''directory_path'', JStr ''docs''), (''pattern'', JStr ''*'')])"
    by (simp add: parse_body_def example_env_def)
  have d: "dict_value [(''directory_path'', JStr ''docs''), (''pattern'', JStr ''*'')] ''directory_path''
       = JStr ''docs''"
    and q: "truthy (dict_value [(''directory_path'', JStr ''docs''), (''pattern'', JStr ''*'')] ''pattern'')"
    by (simp_all add: dict_value_def)
  have n: "\<not> isdir fresh_fs
         (safe_path (TEMP_DIR (example_env
            (JObj [(''directory_path'', JStr ''docs''), (''pattern'', JStr ''*'')]))) ''docs'')"
    by code_simp
  from search_files_requires_directory
    [of "example_env (JObj [(''directory_path'', JStr ''docs''), (''pattern'', JStr ''*'')])"
      "''{}''" fresh_fs "[(''directory_path'', JStr ''docs''), (''pattern'', JStr ''*'')]" "''docs''"]
    p d q n
  show ?thesis by simp
qed



section \<open>The empty string as a missing parameter\<close>

text \<open>
  Claim C9. Take two requests whose parameter mappings agree everywhere except at \<open>k\<close>,
  one of \<^verbatim>\<open>filepath\<close>, \<^verbatim>\<open>directory_path\<close> and \<^verbatim>\<open>pattern\<close>: the first gives \<open>k\<close> the empty
  string, the second leaves it out. Every operation answers both in the same way and
  leaves the same file system. Where the operation requires \<open>k\<close>, the answer is the
  \<^verbatim>\<open><k> parameter is required\<close> error and the file system is untouched (for \<^verbatim>\<open>pattern\<close>,
  once \<^verbatim>\<open>directory_path\<close> has passed its own check, which comes first).
\<close>

theorem empty_string_is_missing:
  assumes "parse_body env body = Inr (JObj kvs)" and "parse_body env body' = Inr (JObj kvs')"
    and "k = ''filepath'' \<or> k = ''directory_path'' \<or> k = ''pattern''"
    and "dict_value kvs k = JStr []" and "dict_value kvs' k = JNull"
    and "\<forall>j. j \<noteq> k \<longrightarrow> dict_value kvs' j = dict_value kvs j"
  shows "handle_mcp_request env function_name body fs
           = handle_mcp_request env function_name body' fs
    \<and> (k = ''filepath'' \<and> (function_name = ''write_file'' \<or> function_name = ''read_file''
          \<or> function_name = ''delete_file'') \<longrightarrow>
        handle_mcp_request env function_name body fs
          = (error_payload ''filepath parameter is required'', fs))
    \<and> (k = ''directory_path'' \<and> (function_name = ''list_directory''
          \<or> function_name = ''search_files'') \<longrightarrow>
        handle_mcp_request env function_name body fs
          = (error_payload ''directory_path parameter is required'', fs))
    \<and> (k = ''pattern'' \<and> function_name = ''search_files''
          \<and> truthy (dict_value kvs ''directory_path'') \<longrightarrow>
        handle_mcp_request env function_name body fs
          = (error_payload ''pattern parameter is required'', fs))"
proof -
  have eq: "j \<noteq> k \<Longrightarrow> dict_value kvs' j = dict_value kvs j" for j
    using assms(6) by blast
  note e = assms(4) assms(5)
  have w: "write_file env (JObj kvs) fs = write_file env (JObj kvs') fs"
    using assms(3) e by (elim disjE) (simp_all add: write_file_def dict_get_dict eq)
  have r: "read_file env (JObj kvs) fs = read_file env (JObj kvs') fs"
    using assms(3) e by (elim disjE) (simp_all add: read_file_def dict_get_dict eq)
  have l: "list_directory env (JObj kvs) fs = list_directory env (JObj kvs') fs"
    using assms(3) e by (elim disjE) (simp_all add: list_directory_def dict_get_dict eq)
  have s: "search_files env (JObj kvs) fs = search_files env (JObj kvs') fs"
    using assms(3) e by (elim disjE) (simp_all add: search_files_def dict_get_dict eq)
  have d: "delete_file env (JObj kvs) fs = delete_file env (JObj kvs') fs"
    using assms(3) e by (elim disjE) (simp_all add: delete_file_def dict_get_dict eq)
  have "dispatch env function_name (JObj kvs) fs = dispatch env function_name (JObj kvs') fs"
    by (simp add: dispatch_def w r l s d)
  then have same: "handle_mcp_request env function_name body fs
           = handle_mcp_request env function_name body' fs"
    by (simp add: handle_mcp_request_def try_block_parsed [OF assms(1)]
        try_block_parsed [OF assms(2)])
  note t = try_block_parsed [OF assms(1)]
  have a: "k = ''filepath'' \<and> (function_name = ''write_file'' \<or> function_name = ''read_file''
          \<or> function_name = ''delete_file'') \<longrightarrow>
        handle_mcp_request env function_name body fs
          = (error_payload ''filepath parameter is required'', fs)"
  proof (intro impI, elim conjE)
    assume k: "k = ''filepath''"
      and f: "function_name = ''write_file'' \<or> function_name = ''read_file''
          \<or> function_name = ''delete_file''"
    have v: "dict_value kvs ''filepath'' = JStr []"
      using e(1) by (simp add: k)
    from f have "try_block env function_name body fs
        = (Inr (error_payload ''filepath parameter is required''), fs)"
      by (elim disjE)
        (simp_all add: t dispatch_def write_file_def read_file_def delete_file_def
          dict_get_dict v)
    then show "handle_mcp_request env function_name body fs
          = (error_payload ''filepath parameter is required'', fs)"
      by (rule handle_returned)
  qed
  have b: "k = ''directory_path'' \<and> (function_name = ''list_directory''
          \<or> function_name = ''search_files'') \<longrightarrow>
        handle_mcp_request env function_name body fs
          = (error_payload ''directory_path parameter is required'', fs)"
  proof (intro impI, elim conjE)
    assume k: "k = ''directory_path''"
      and f: "function_name = ''list_directory'' \<or> function_name = ''search_files''"
    have v: "dict_value kvs ''directory_path'' = JStr []"
      using e(1) by (simp add: k)
    from f have "try_block env function_name body fs
        = (Inr (error_payload ''directory_path parameter is required''), fs)"
      by (elim disjE)
        (simp_all add: t dispatch_def list_directory_def search_files_def dict_get_dict v)
    then show "handle_mcp_request env function_name body fs
          = (error_payload ''directory_path parameter is required'', fs)"
      by (rule handle_returned)
  qed
  have c: "k = ''pattern'' \<and> function_name = ''search_files''
          \<and> truthy (dict_value kvs ''directory_path'') \<longrightarrow>
        handle_mcp_request env function_name body fs
          = (error_payload ''pattern parameter is required'', fs)"
  proof (intro impI, elim conjE)
    assume k: "k = ''pattern''" and f: "function_name = ''search_files''"
      and d: "truthy (dict_value kvs ''directory_path'')"
    have v: "dict_value kvs ''pattern'' = JStr []"
      using e(1) by (simp add: k)
    have "try_block env function_name body fs
        = (Inr (error_payload ''pattern parameter is required''), fs)"
      by (simp add: f t dispatch_def search_files_def dict_get_dict v d)
    then show "handle_mcp_request env function_name body fs
          = (error_payload ''pattern parameter is required'', fs)"
      by (rule handle_returned)
  qed
  show ?thesis
    by (intro conjI) (fact same, fact a, fact b, fact c)
qed

theorem empty_string_is_missing_witness:
  "parse_body (example_env (JObj [(''filepath'', JStr [])])) ''{}''
     = Inr (JObj [(''filepath'', JStr [])])
   \<and> parse_body (example_env (JObj [(''filepath'', JStr [])])) [] = Inr (JObj [])
   \<and> dict_value [(''filepath'', JStr [])] ''filepath'' = JStr []
   \<and> dict_value [] ''filepath'' = JNull
   \<and> handle_mcp_request (example_env (JObj [(''filepath'', JStr [])])) ''read_file'' ''{}'' fresh_fs
       = handle_mcp_request (example_env (JObj [(''filepath'', JStr [])])) ''read_file'' [] fresh_fs
   \<and> handle_mcp_request (example_env (JObj [(''filepath'', JStr [])])) ''read_file'' ''{}'' fresh_fs
       = (error_payload ''filepath parameter is required'', fresh_fs)"
proof -
  have p: "parse_body (example_env (JObj [(''filepath'', JStr [])])) ''{}''
     = Inr (JObj [(''filepath'', JStr [])])"
    and q: "parse_body (example_env (JObj [(''filepath'', JStr [])])) [] = Inr (JObj [])"
    by (simp_all add: parse_body_def example_env_def)
  have v: "dict_value [(''filepath'', JStr [])] ''filepath'' = JStr []"
    and n: "dict_value [] ''filepath'' = JNull"
    and o: "\<forall>j. j \<noteq> ''filepath'' \<longrightarrow> dict_value [] j = dict_value [(''filepath'', JStr [])] j"
    by (simp_all add: dict_value_def)
  have k: "''filepath'' = ''filepath'' \<or> ''filepath'' = ''directory_path''
      \<or> ''filepath'' = ''pattern''"
    by simp
  note th = empty_string_is_missing [OF p q k v n o, of "''read_file''" fresh_fs]
  from th have 1: "handle_mcp_request (example_env (JObj [(''filepath'', JStr [])])) ''read_file'' ''{}'' fresh_fs
       = handle_mcp_request (example_env (JObj [(''filepath'', JStr [])])) ''read_file'' [] fresh_fs"
    by (rule conjunct1)
  have 2: "handle_mcp_request (example_env (JObj [(''filepath'', JStr [])])) ''read_file'' ''{}'' fresh_fs
       = (error_payload ''filepath parameter is required'', fresh_fs)"
    by (rule th [THEN conjunct2, THEN conjunct1, rule_format]) simp
  show ?thesis
    by (intro conjI) (fact p, fact q, fact v, fact n, fact 1, fact 2)
qed



section \<open>Writing, then reading\<close>












section \<open>Deleting\<close>









section \<open>Listing a directory that does not exist\<close>

text \<open>\<open>file_on_path\<close> in terms of \<open>lookup\<close>: some prefix of the names is a regular file.\<close>

lemma file_on_path_iff:
  "file_on_path fs cs \<longleftrightarrow> (\<exists>n s. lookup fs (take n cs) = Some (File s))"
proof (induction cs arbitrary: fs)
  case Nil
  then show ?case by simp
next
  case (Cons c cs)
  have t: "(\<exists>n s. lookup fs (take n (c # cs)) = Some (File s))
      \<longleftrightarrow> (\<exists>n s. lookup fs (c # take n cs) = Some (File s))"
  proof
    assume "\<exists>n s. lookup fs (take n (c # cs)) = Some (File s)"
    then obtain n s where a: "lookup fs (take n (c # cs)) = Some (File s)" by blast
    then obtain m where "n = Suc m" by (cases n) auto
    with a show "\<exists>n s. lookup fs (c # take n cs) = Some (File s)" by auto
  next
    assume "\<exists>n s. lookup fs (c # take n cs) = Some (File s)"
    then obtain n s where "lookup fs (take (Suc n) (c # cs)) = Some (File s)" by auto
    then show "\<exists>n s. lookup fs (take n (c # cs)) = Some (File s)" by blast
  qed
  show ?case
  proof (cases "map_of fs c")
    case None
    then show ?thesis unfolding t by simp
  next
    case (Some n)
    show ?thesis
    proof (cases n)
      case (File s)
      have "lookup fs (c # take 0 cs) = Some (File s)"
        using Some File by simp
      then have "\<exists>n s. lookup fs (c # take n cs) = Some (File s)" by blast
      with Some File show ?thesis unfolding t by simp
    next
      case (Dir sub)
      with Some Cons.IH [of sub] show ?thesis unfolding t by simp
    qed
  qed
qed









section \<open>Searching\<close>

lemma sep_join_snoc: "cs \<noteq> [] \<Longrightarrow> sep_join (cs @ [c]) = sep_join cs @ sep # c"
  by (induction cs rule: sep_join.induct) auto

lemma sep_join_last:
  "cs \<noteq> [] \<Longrightarrow> last cs \<noteq> [] \<Longrightarrow> sep_join cs \<noteq> [] \<and> last (sep_join cs) = last (last cs)"
  by (induction cs rule: sep_join.induct) auto

lemma split_dir_name:
  assumes "sep \<notin> set c"
  shows "split (h @ sep # c)
    = (if h @ [sep] \<noteq> replicate (Suc (length h)) sep then rstrip_sep (h @ [sep]) else h @ [sep], c)"
proof -
  have r: "rev (h @ sep # c) = rev c @ sep # rev h" by simp
  have "takeWhile (\<lambda>x. x \<noteq> sep) (rev c @ sep # rev h)
      = rev c @ takeWhile (\<lambda>x. x \<noteq> sep) (sep # rev h)"
    by (rule takeWhile_append2) (use assms in auto)
  then have t: "takeWhile (\<lambda>x. x \<noteq> sep) (rev c @ sep # rev h) = rev c"
    by simp
  have "dropWhile (\<lambda>x. x \<noteq> sep) (rev c @ sep # rev h)
      = dropWhile (\<lambda>x. x \<noteq> sep) (sep # rev h)"
    by (rule dropWhile_append2) (use assms in auto)
  then have d: "dropWhile (\<lambda>x. x \<noteq> sep) (rev c @ sep # rev h) = sep # rev h"
    by simp
  show ?thesis
    unfolding split_def r t d by (simp add: Let_def)
qed

lemma rstrip_sep_snoc: "p \<noteq> [] \<Longrightarrow> last p \<noteq> sep \<Longrightarrow> rstrip_sep (p @ [sep]) = p"
  by (cases p rule: rev_cases) (simp_all add: rstrip_sep_def)

lemma join_split:
  assumes k: "k = 1 \<or> k = 2" and cs: "\<forall>c \<in> set cs. real_name c"
    and c: "sep \<notin> set c" "c \<noteq> []"
  defines "p \<equiv> replicate k sep @ sep_join cs"
  shows "join p c = replicate k sep @ sep_join (cs @ [c])"
    and "split (join p c) = (p, c)"
proof -
  have nabs: "\<not> isabs c"
    using c by (cases c) (auto simp: isabs_def)
  have pne: "p \<noteq> []" using k by (auto simp: p_def)
  show j: "join p c = replicate k sep @ sep_join (cs @ [c])"
  proof (cases "cs = []")
    case True
    with k show ?thesis by (auto simp: join_def nabs p_def)
  next
    case False
    with cs have "last cs \<noteq> [] \<and> sep \<notin> set (last cs)"
      by (simp add: real_name_def)
    with sep_join_last [OF False] have "sep_join cs \<noteq> [] \<and> last (sep_join cs) \<noteq> sep"
      by (metis last_in_set)
    then have "last p \<noteq> sep" by (simp add: p_def)
    with pne False show ?thesis by (simp add: join_def nabs p_def sep_join_snoc)
  qed
  show "split (join p c) = (p, c)"
  proof (cases "cs = []")
    case True
    from k obtain k' where k': "k = Suc k'" by auto
    have "join p c = replicate k' sep @ sep # c"
      unfolding j using True by (simp add: k' replicate_append_same)
    moreover have "replicate k' sep @ [sep] = replicate (Suc k') sep"
      by (simp add: replicate_append_same)
    ultimately show ?thesis
      using True by (simp add: split_dir_name [OF c(1)] p_def k')
  next
    case False
    with cs have l: "last cs \<noteq> [] \<and> sep \<notin> set (last cs)"
      by (simp add: real_name_def)
    with sep_join_last [OF False] have s: "sep_join cs \<noteq> [] \<and> last (sep_join cs) \<noteq> sep"
      by (metis last_in_set)
    then have lp: "last p \<noteq> sep" by (simp add: p_def)
    have e: "join p c = p @ sep # c"
      unfolding j using False by (simp add: p_def sep_join_snoc)
    have "last p \<in> set (p @ [sep])" using pne by simp
    then have "p @ [sep] \<noteq> replicate (Suc (length p)) sep"
      using lp by (metis in_set_replicate)
    then show ?thesis
      unfolding e by (simp add: split_dir_name [OF c(1)] rstrip_sep_snoc [OF pne lp])
  qed
qed

lemma has_magic_join:
  "\<not> isabs c \<Longrightarrow> has_magic (join p c) = (has_magic p \<or> has_magic c)"
  by (auto simp: has_magic_def join_def sep_def)

lemma lookup_snoc:
  "lookup fs cs = Some (Dir es) \<Longrightarrow> lookup fs (cs @ [c]) = map_of es c"
proof (induction cs arbitrary: fs)
  case Nil
  then show ?case by (auto split: option.splits node.splits)
next
  case (Cons a cs)
  then show ?case by (auto split: option.splits node.splits if_splits)
qed

lemma relpath_of_relative: "\<not> isabs (relpath_of path start)"
proof -
  define sl where "sl = filter (\<lambda>x. x \<noteq> []) (split_sep (abspath start))"
  define pl where "pl = filter (\<lambda>x. x \<noteq> []) (split_sep (abspath path))"
  define rl where "rl = replicate (length sl - commonprefix sl pl) ''..'' @ drop (commonprefix sl pl) pl"
  have a: "\<forall>x \<in> set rl. x \<noteq> [] \<and> sep \<notin> set x"
    unfolding rl_def pl_def
    by (auto simp: sep_def dest!: in_set_dropD dest: split_sep_no_sep [unfolded sep_def])
  have h: "xs \<noteq> [] \<Longrightarrow> hd xs \<noteq> [] \<Longrightarrow> sep_join xs \<noteq> [] \<and> hd (sep_join xs) = hd (hd xs)"
    for xs
    by (induction xs rule: sep_join.induct) auto
  have i: "isabs s = (s \<noteq> [] \<and> hd s = sep)" for s
    by (cases s) (simp_all add: isabs_def)
  have b: "\<not> isabs (sep_join xs)"
    if "xs \<noteq> []" "\<forall>x \<in> set xs. x \<noteq> [] \<and> sep \<notin> set x" for xs
  proof -
    from that have "hd xs \<noteq> [] \<and> sep \<notin> set (hd xs)" by (cases xs) auto
    then have "hd (hd xs) \<noteq> sep" by (cases "hd xs") auto
    with h [of xs] that show ?thesis by (simp add: i)
  qed
  have "relpath_of path start = (if rl = [] then ''.'' else sep_join rl)"
    by (simp add: relpath_of_def Let_def rl_def sl_def pl_def)
  with a b [of rl] show ?thesis
    by (auto simp: isabs_def sep_def)
qed

lemma relative_matches_join:
  "p \<noteq> [] \<Longrightarrow> isabs p \<Longrightarrow>
   relative_matches t (map (join p) names) = Inr (map (\<lambda>n. relpath_of (join p n) t) names)"
proof (induction names)
  case Nil
  then show ?case by simp
next
  case (Cons n names)
  have "join p n \<noteq> []"
    using Cons.prems isabs_join [of p n] by (auto simp: isabs_def)
  with Cons show ?case by (simp add: relpath_def)
qed


lemma glob_in_directory:
  assumes k: "k = 1 \<or> k = 2" and cs: "\<forall>c \<in> set cs. real_name c"
    and pat: "real_name pat"
    and p: "p = replicate k sep @ sep_join cs"
    and m: "\<not> has_magic p"
    and l: "listdir fs p = Inr names"
  shows "glob fnm fs (join p pat)
    = map (join p)
        (if has_magic pat
         then filter (\<lambda>name. fnm name pat)
                (if ishidden pat then names else filter (\<lambda>x. \<not> ishidden x) names)
         else if pat \<in> set names then [pat] else [])"
proof -
  have c: "sep \<notin> set pat" "pat \<noteq> []"
    using pat by (simp_all add: real_name_def)
  have nabs: "\<not> isabs pat"
    using c by (cases pat) (auto simp: isabs_def)
  have pne: "p \<noteq> []" using k by (auto simp: p)
  have j: "join p pat = replicate k sep @ sep_join (cs @ [pat])"
    and sp: "split (join p pat) = (p, pat)"
    unfolding p by (rule join_split [OF k cs c])+
  have dn: "dirname (join p pat) = p" and bn: "snd (split (join p pat)) = pat"
    by (simp_all add: dirname_def sp)
  have hm: "has_magic (join p pat) = has_magic pat"
    using m by (simp add: has_magic_join [OF nabs])
  have kpos: "0 < k" using k by auto
  from l obtain es where st: "stat fs p = Some (Dir es)" and nm: "names = map fst es"
    by (auto simp: listdir_def split: option.splits node.splits)
  have lk: "lookup fs cs = Some (Dir es)"
    using st stat_shape [OF cs kpos, of fs] by (simp add: p)
  have "\<forall>c \<in> set (cs @ [pat]). real_name c"
    using cs pat by simp
  from stat_shape [OF this kpos, of fs] have "stat fs (join p pat) = map_of es pat"
    by (simp add: j lookup_snoc [OF lk])
  then have ex: "exists fs (join p pat) = (pat \<in> set names)"
    by (simp add: exists_def nm map_of_eq_None_iff)
  have sc: "scandir_names fs p False = names"
    using pne st by (simp add: scandir_names_def nm)
  show ?thesis
  proof (cases "has_magic pat")
    case False
    then show ?thesis
      unfolding glob_def
      by (subst iglob.simps) (simp add: hm bn c ex)
  next
    case True
    then show ?thesis
      unfolding glob_def
      by (subst iglob.simps) (simp add: hm bn dn pne m glob1_def sc Let_def)
  qed
qed

text \<open>
  Claim C6, amended. Let \<^verbatim>\<open>TEMP_DIR\<close> be absolute, \<^verbatim>\<open>directory_path\<close> a non-empty string
  whose resolved path is an existing directory with no wildcard character in it, and
  \<^verbatim>\<open>pattern\<close> a single path segment: a string that is not empty, not \<^verbatim>\<open>.\<close> or \<^verbatim>\<open>..\<close>, and
  has no separator. Then the matches are immediate children of the resolved directory,
  in directory order: the names the matcher accepts (names that start with a dot only for
  a pattern that starts with a dot) when the pattern has a wildcard, the child named by
  the pattern, if there is one, otherwise. Each match is returned as \<^verbatim>\<open>os.path.relpath\<close>
  of the child against \<^verbatim>\<open>TEMP_DIR\<close>, which is never an absolute path, and the file system
  is unchanged. The witness is the specification's example: \<^verbatim>\<open>*.txt\<close> in a directory with
  \<^verbatim>\<open>a.txt\<close>, \<^verbatim>\<open>b.log\<close> and \<^verbatim>\<open>sub/c.txt\<close> gives only \<^verbatim>\<open>d/a.txt\<close>.
\<close>

theorem search_files_matches:
  assumes "isabs (TEMP_DIR env)"
    and "parse_body env body = Inr (JObj kvs)"
    and "dict_value kvs ''directory_path'' = JStr dp" and "dp \<noteq> []"
    and "dict_value kvs ''pattern'' = JStr pat" and "real_name pat"
    and "\<not> has_magic (safe_path (TEMP_DIR env) dp)"
    and "listdir fs (safe_path (TEMP_DIR env) dp) = Inr names"
  shows "handle_mcp_request env ''search_files'' body fs
      = (JObj [(''matches'',
                JArr (map (\<lambda>name. JStr (relpath_of (join (safe_path (TEMP_DIR env) dp) name)
                                          (TEMP_DIR env)))
                  (if has_magic pat
                   then filter (\<lambda>name. fnmatch env name pat)
                          (if ishidden pat then names else filter (\<lambda>x. \<not> ishidden x) names)
                   else if pat \<in> set names then [pat] else []))),
               (''pattern'', JStr pat), (''directory_path'', JStr dp)], fs)
    \<and> (\<forall>name. \<not> isabs (relpath_of (join (safe_path (TEMP_DIR env) dp) name) (TEMP_DIR env)))"
proof
  let ?p = "safe_path (TEMP_DIR env) dp"
  let ?sel = "if has_magic pat
     then filter (\<lambda>name. fnmatch env name pat)
            (if ishidden pat then names else filter (\<lambda>x. \<not> ishidden x) names)
     else if pat \<in> set names then [pat] else []"
  obtain k cs where k: "k = 1 \<or> k = 2" and cs: "\<forall>c \<in> set cs. real_name c"
    and p: "?p = replicate k sep @ sep_join cs"
    using safe_path_shape [OF assms(1)] by blast
  have g: "glob (fnmatch env) fs (join ?p pat) = map (join ?p) ?sel"
    by (rule glob_in_directory [OF k cs assms(6) p assms(7) assms(8)])
  have pne: "?p \<noteq> []" by (rule safe_path_facts(1) [OF assms(1)])
  have pabs: "isabs ?p" using k by (cases k) (auto simp: p isabs_def)
  have d: "isdir fs ?p"
    using assms(8) by (auto simp: listdir_def isdir_def split: option.splits node.splits)
  have pt: "pat \<noteq> []" using assms(6) by (simp add: real_name_def)
  have "try_block env ''search_files'' body fs
      = (Inr (JObj [(''matches'',
                JArr (map (\<lambda>name. JStr (relpath_of (join ?p name) (TEMP_DIR env))) ?sel)),
               (''pattern'', JStr pat), (''directory_path'', JStr dp)]), fs)"
    using assms(3,4,5) pt d
    by (simp add: try_block_parsed [OF assms(2)] dispatch_def search_files_def dict_get_dict
        g relative_matches_join [OF pne pabs] o_def)
  then show "handle_mcp_request env ''search_files'' body fs
      = (JObj [(''matches'',
                JArr (map (\<lambda>name. JStr (relpath_of (join ?p name) (TEMP_DIR env))) ?sel)),
               (''pattern'', JStr pat), (''directory_path'', JStr dp)], fs)"
    by (rule handle_returned)
next
  show "\<forall>name. \<not> isabs (relpath_of (join (safe_path (TEMP_DIR env) dp) name) (TEMP_DIR env))"
    by (simp add: relpath_of_relative)
qed

theorem search_files_matches_witness:
  "isabs (TEMP_DIR (example_env
      (JObj [(''directory_path'', JStr ''d''), (''pattern'', JStr ''*.txt'')])))
   \<and> parse_body (example_env
      (JObj [(''directory_path'', JStr ''d''), (''pattern'', JStr ''*.txt'')])) ''{}''
     = Inr (JObj [(''directory_path'', JStr ''d''), (''pattern'', JStr ''*.txt'')])
   \<and> real_name ''*.txt''
   \<and> \<not> has_magic (safe_path (TEMP_DIR (example_env
      (JObj [(''directory_path'', JStr ''d''), (''pattern'', JStr ''*.txt'')]))) ''d'')
   \<and> listdir search_fs (safe_path (TEMP_DIR (example_env
      (JObj [(''directory_path'', JStr ''d''), (''pattern'', JStr ''*.txt'')]))) ''d'')
     = Inr [''a.txt'', ''b.log'', ''sub'']
   \<and> handle_mcp_request
        (example_env (JObj [(''directory_path'', JStr ''d''), (''pattern'', JStr ''*.txt'')]))
        ''search_files'' ''{}'' search_fs
      = (JObj [(''matches'', JArr [JStr ''d/a.txt'']), (''pattern'', JStr ''*.txt''),
               (''directory_path'', JStr ''d'')], search_fs)"
proof -
  let ?kvs = "[(''directory_path'', JStr ''d''), (''pattern'', JStr ''*.txt'')]"
  let ?env = "example_env (JObj ?kvs)"
  have a: "isabs (TEMP_DIR ?env)"
    by (simp add: example_env_def isabs_def sep_def)
  have p: "parse_body ?env ''{}'' = Inr (JObj ?kvs)"
    by (simp add: parse_body_def example_env_def)
  have d: "dict_value ?kvs ''directory_path'' = JStr ''d''"
    and q: "dict_value ?kvs ''pattern'' = JStr ''*.txt''"
    by (simp_all add: dict_value_def)
  have n: "''d'' \<noteq> []"
    by simp
  have r: "real_name ''*.txt''"
    by (simp add: real_name_def sep_def)
  have m: "\<not> has_magic (safe_path (TEMP_DIR ?env) ''d'')"
    by code_simp
  have l: "listdir search_fs (safe_path (TEMP_DIR ?env) ''d'') = Inr [''a.txt'', ''b.log'', ''sub'']"
    by code_simp
  have s: "map (\<lambda>name. JStr (relpath_of (join (safe_path (TEMP_DIR ?env) ''d'') name) (TEMP_DIR ?env)))
             (if has_magic ''*.txt''
              then filter (\<lambda>name. fnmatch ?env name ''*.txt'')
                     (if ishidden ''*.txt'' then [''a.txt'', ''b.log'', ''sub'']
                      else filter (\<lambda>x. \<not> ishidden x) [''a.txt'', ''b.log'', ''sub''])
              else if ''*.txt'' \<in> set [''a.txt'', ''b.log'', ''sub''] then [''*.txt''] else [])
      = [JStr ''d/a.txt'']"
    by code_simp
  from search_files_matches [OF a p d n q r m l, THEN conjunct1]
  have h: "handle_mcp_request ?env ''search_files'' ''{}'' search_fs
      = (JObj [(''matches'', JArr [JStr ''d/a.txt'']), (''pattern'', JStr ''*.txt''),
               (''directory_path'', JStr ''d'')], search_fs)"
    unfolding s .
  show ?thesis
    by (intro conjI) (fact a, fact p, fact r, fact m, fact l, fact h)
qed


text \<open>
  Claim C6 as stated, for every pattern, fails for a pattern with a separator: in the same
  directory \<^verbatim>\<open>*/*.txt\<close> matches \<^verbatim>\<open>sub/c.txt\<close>, which is not an immediate child.
\<close>

theorem search_files_counterexample:
  "listdir search_fs (safe_path ''/tmp/fileops_x'' ''d'') = Inr [''a.txt'', ''b.log'', ''sub'']
   \<and> handle_mcp_request
        (example_env (JObj [(''directory_path'', JStr ''d''), (''pattern'', JStr ''*/*.txt'')]))
        ''search_files'' ''{}'' search_fs
      = (JObj [(''matches'', JArr [JStr ''d/sub/c.txt'']), (''pattern'', JStr ''*/*.txt''),
               (''directory_path'', JStr ''d'')], search_fs)"
  by code_simp



end
